theory Spec2Isabelle
  imports Main
begin

section \<open>Errors raised by \<^verbatim>\<open>mltsp/custom_feature_tools.py\<close>\<close>

text \<open>
  Every exception the modelled code can raise is a value. The two guard exceptions and
  the plain \<^verbatim>\<open>Exception\<close> of the dependency check carry their message; the remaining
  constructors stand for the exception classes Python raises on a missing attribute,
  a non-iterable value, a failing file operation, and for whatever user code or
  \<^verbatim>\<open>eval\<close> raises.
\<close>

datatype error =
    MissingRequiredParameterError string
  | MissingRequiredReturnKeyError string
  | Exception string
  | AttributeError string
  | TypeError string
  | KeyError string
  | IOError string
  | OSError string
  | IndexError string
  | RaisedByCallee string

text \<open>The three message templates of lines 98, 104 and 177.\<close>

definition missing_arg_msg :: "string \<Rightarrow> string" where
  "missing_arg_msg required_arg =
     ''Required arg '' @ required_arg @ '' not provided in function call.''"

definition missing_key_msg :: "string \<Rightarrow> string" where
  "missing_key_msg provided =
     ''Key '' @ provided @ '' not present in function return value.''"

definition unresolved_msg :: "string \<Rightarrow> string" where
  "unresolved_msg reqd_param =
     ''Not all of the required parameters are provided by the functions in this script (required parameter ''
       @ [CHR 0x27] @ reqd_param @ [CHR 0x27] @ '').''"

section \<open>The decorator \<^verbatim>\<open>myFeature\<close> (lines 45-107)\<close>

text \<open>
  A \<^verbatim>\<open>myFeature\<close> object holds the two lists given to the decorator; the same
  two-field shape is the value stored per function name by the extractor (line 133).
\<close>

record req_prov =
  requires :: "string list"
  provides :: "string list"

text \<open>
  A feature dictionary maps names to values; a unit is a function from its keyword
  arguments to a dictionary, or it raises.
\<close>

type_synonym 'v features = "string \<rightharpoonup> 'v"
type_synonym 'v unit_fn = "'v features \<Rightarrow> error + 'v features"

text \<open>
  \<^verbatim>\<open>wrapped_f(*args, **kwargs)\<close>, lines 94-106. The scheduler calls units with keyword
  arguments only (line 205), so \<^verbatim>\<open>args\<close> is the empty tuple and
  \<^verbatim>\<open>required_arg not in args\<close> is true: the pre-call check is the test on
  \<^verbatim>\<open>kwargs\<close>. Both loops raise at the first name that fails.
\<close>

definition wrapped_f :: "req_prov \<Rightarrow> 'v unit_fn \<Rightarrow> 'v unit_fn" where
  "wrapped_f self f kwargs =
     (case find (\<lambda>required_arg. kwargs required_arg = None) (requires self) of
        Some required_arg \<Rightarrow>
          Inl (MissingRequiredParameterError (missing_arg_msg required_arg))
      | None \<Rightarrow>
          (case f kwargs of
             Inl e \<Rightarrow> Inl e
           | Inr result_dict \<Rightarrow>
               (case find (\<lambda>provided. result_dict provided = None) (provides self) of
                  Some provided \<Rightarrow>
                    Inl (MissingRequiredReturnKeyError (missing_key_msg provided))
                | None \<Rightarrow> Inr result_dict)))"

section \<open>The scheduler \<^verbatim>\<open>call_custom_functions\<close> (lines 145-218)\<close>

text \<open>
  The locals of the function that the loops read and write. \<^verbatim>\<open>func_rounds\<close> is the
  dictionary keyed by \<^verbatim>\<open>str(i)\<close>; the key is kept as the number \<^verbatim>\<open>i\<close>.
\<close>

record 'v sched =
  funcnames :: "string list"
  func_queue :: "string list"
  func_rounds :: "nat \<rightharpoonup> string list"
  all_required_params_copy :: "string list"
  all_extracted_features :: "'v features"

text \<open>
  The declaration table \<^verbatim>\<open>fnames_req_prov_dict\<close> is an association list in the
  dictionary's key order, which is the order \<^verbatim>\<open>list(fnames_req_prov_dict.keys())\<close>
  returns and the \<^verbatim>\<open>for\<close> loop walks.
\<close>

type_synonym decl_table = "(string \<times> req_prov) list"

text \<open>Lines 198-203: the keyword arguments, caller-known values looked up first.\<close>

definition arguments_of :: "'v features \<Rightarrow> 'v features \<Rightarrow> string list \<Rightarrow> 'v features" where
  "arguments_of features_already_known extracted reqs =
     foldl (\<lambda>arguments req.
              case features_already_known req of
                Some v \<Rightarrow> arguments(req \<mapsto> v)
              | None \<Rightarrow> (case extracted req of
                           Some v \<Rightarrow> arguments(req \<mapsto> v)
                         | None \<Rightarrow> arguments))
           Map.empty reqs"

text \<open>
  One pass through the body of the \<^verbatim>\<open>for\<close> loop (lines 189-209), for the element
  at position \<^verbatim>\<open>idx\<close> of \<^verbatim>\<open>funcnames\<close>. The module of unit functions is the
  parameter \<^verbatim>\<open>custom_feature_defs\<close>. Line 195 appends to the list of the round
  \<^verbatim>\<open>i\<close>, which line 187 made; without that list the subscript raises.
\<close>

definition loop_body ::
  "(string \<Rightarrow> 'v unit_fn) \<Rightarrow> decl_table \<Rightarrow> 'v features \<Rightarrow> nat \<Rightarrow> nat \<Rightarrow> 'v sched
     \<Rightarrow> error + 'v sched" where
  "loop_body custom_feature_defs fnames_req_prov_dict features_already_known i idx st =
     (let funcname = funcnames st ! idx in
      case map_of fnames_req_prov_dict funcname of
        None \<Rightarrow> Inl (KeyError funcname)
      | Some reqs_provs_dict \<Rightarrow>
          (let reqs = requires reqs_provs_dict; provs = provides reqs_provs_dict in
           if set (all_required_params_copy st) \<inter> set reqs \<noteq> {}
           then Inr (st\<lparr>func_queue := func_queue st @ [funcname]\<rparr>)
           else
             (case func_rounds st i of
                None \<Rightarrow> Inl (KeyError ''str(i)'')
              | Some this_round \<Rightarrow>
                  (let arguments =
                         arguments_of features_already_known (all_extracted_features st) reqs in
                   case custom_feature_defs funcname arguments of
                     Inl e \<Rightarrow> Inl e
                   | Inr func_result \<Rightarrow>
                       Inr (st\<lparr>func_rounds := (func_rounds st)(i \<mapsto> this_round @ [funcname]),
                                all_required_params_copy :=
                                  [x \<leftarrow> all_required_params_copy st. x \<notin> set provs],
                                all_extracted_features :=
                                  all_extracted_features st ++ func_result,
                                funcnames := remove1 funcname (funcnames st)\<rparr>)))))"

text \<open>
  The \<^verbatim>\<open>for funcname in funcnames\<close> loop of line 188. Python's list iterator keeps a
  position and reads \<^verbatim>\<open>funcnames[idx]\<close> as long as \<^verbatim>\<open>idx < len(funcnames)\<close>, on
  the list as it is at that moment; line 209 removes from that same list.
\<close>

function for_loop ::
  "(string \<Rightarrow> 'v unit_fn) \<Rightarrow> decl_table \<Rightarrow> 'v features \<Rightarrow> nat \<Rightarrow> nat \<Rightarrow> 'v sched
     \<Rightarrow> error + 'v sched" where
  "for_loop defs tbl fak i idx st =
     (if idx < length (funcnames st)
      then (case loop_body defs tbl fak i idx st of
              Inl e \<Rightarrow> Inl e
            | Inr st' \<Rightarrow> for_loop defs tbl fak i (Suc idx) st')
      else Inr st)"
  by pat_completeness auto
termination
proof (relation "measure (\<lambda>(defs, tbl, fak, i, idx, st). length (funcnames st) - idx)")
  show "wf (measure (\<lambda>(defs::string \<Rightarrow> 'v unit_fn, tbl::decl_table, fak::'v features,
                        i::nat, idx::nat, st::'v sched). length (funcnames st) - idx))"
    by simp
next
  fix defs :: "string \<Rightarrow> 'v unit_fn" and tbl :: decl_table and fak :: "'v features"
    and i idx :: nat and st st' :: "'v sched"
  assume "idx < length (funcnames st)" and "loop_body defs tbl fak i idx st = Inr st'"
  then have "idx < length (funcnames st)" and "length (funcnames st') \<le> length (funcnames st)"
    by (auto simp: loop_body_def Let_def length_remove1
        split: option.splits if_splits sum.splits)
  then show "((defs, tbl, fak, i, Suc idx, st'), (defs, tbl, fak, i, idx, st))
              \<in> measure (\<lambda>(defs, tbl, fak, i, idx, st). length (funcnames st) - idx)"
    by simp
qed

declare for_loop.simps [simp del]

text \<open>
  The \<^verbatim>\<open>while len(funcnames) > 0\<close> loop of lines 186-210. Nothing in the source
  bounds the number of rounds, so the model counts them with fuel: \<^verbatim>\<open>None\<close> means
  the loop was still running when the fuel ran out.
\<close>

fun while_loop ::
  "nat \<Rightarrow> (string \<Rightarrow> 'v unit_fn) \<Rightarrow> decl_table \<Rightarrow> 'v features \<Rightarrow> nat \<Rightarrow> 'v sched
     \<Rightarrow> (error + 'v sched) option" where
  "while_loop 0 defs tbl fak i st = None"
| "while_loop (Suc fuel) defs tbl fak i st =
     (if length (funcnames st) > 0
      then (case for_loop defs tbl fak i 0 (st\<lparr>func_rounds := (func_rounds st)(i \<mapsto> [])\<rparr>) of
              Inl e \<Rightarrow> Some (Inl e)
            | Inr st' \<Rightarrow> while_loop fuel defs tbl fak (Suc i) st')
      else Some (Inr st))"

text \<open>Lines 172-173 and 180-185: the locals before the first round.\<close>

definition unknown_required :: "'v features \<Rightarrow> string list \<Rightarrow> string list" where
  "unknown_required features_already_known all_required_params =
     [x \<leftarrow> all_required_params. features_already_known x = None]"

definition initial_sched :: "'v features \<Rightarrow> string list \<Rightarrow> decl_table \<Rightarrow> 'v sched" where
  "initial_sched features_already_known all_required_params fnames_req_prov_dict =
     \<lparr>funcnames = map fst fnames_req_prov_dict,
      func_queue = [],
      func_rounds = Map.empty,
      all_required_params_copy = unknown_required features_already_known all_required_params,
      all_extracted_features = Map.empty\<rparr>"

text \<open>
  Lines 172-179, the dependency check: the first name of \<^verbatim>\<open>all_required_params_copy\<close>
  that is not in \<^verbatim>\<open>all_provided_params\<close> raises.
\<close>

definition check_required :: "'v features \<Rightarrow> string list \<Rightarrow> string list \<Rightarrow> error option" where
  "check_required features_already_known all_required_params all_provided_params =
     (case find (\<lambda>reqd_param. reqd_param \<notin> set all_provided_params)
             (unknown_required features_already_known all_required_params) of
        Some reqd_param \<Rightarrow> Some (Exception (unresolved_msg reqd_param))
      | None \<Rightarrow> None)"

text \<open>
  The whole function. The import of the script (lines 151-166) is the parameter
  \<^verbatim>\<open>custom_feature_defs\<close>; the redirection of \<^verbatim>\<open>sys.stdout\<close> and the removal of the
  copied script do not touch the values computed and are left out.
\<close>

definition call_custom_functions ::
  "nat \<Rightarrow> (string \<Rightarrow> 'v unit_fn) \<Rightarrow> 'v features \<Rightarrow> string list \<Rightarrow> string list \<Rightarrow> decl_table
     \<Rightarrow> (error + 'v features) option" where
  "call_custom_functions fuel custom_feature_defs features_already_known all_required_params
       all_provided_params fnames_req_prov_dict =
     (case check_required features_already_known all_required_params all_provided_params of
        Some e \<Rightarrow> Some (Inl e)
      | None \<Rightarrow>
          (case while_loop fuel custom_feature_defs fnames_req_prov_dict features_already_known 0
                  (initial_sched features_already_known all_required_params
                     fnames_req_prov_dict) of
             None \<Rightarrow> None
           | Some (Inl e) \<Rightarrow> Some (Inl e)
           | Some (Inr st) \<Rightarrow> Some (Inr (all_extracted_features st))))"

section \<open>Names for what the scheduler has done so far\<close>

text \<open>
  The units already executed are the keys of the table that line 209 has removed from
  \<^verbatim>\<open>funcnames\<close>; \<^verbatim>\<open>declared_by\<close> collects the names their \<^verbatim>\<open>provides\<close> lists declare.
\<close>

definition executed_units :: "decl_table \<Rightarrow> 'v sched \<Rightarrow> string set" where
  "executed_units tbl st = set (map fst tbl) - set (funcnames st)"

definition declared_by :: "decl_table \<Rightarrow> string set \<Rightarrow> string set" where
  "declared_by tbl units =
     (\<Union>u\<in>units. case map_of tbl u of None \<Rightarrow> {} | Some d \<Rightarrow> set (provides d))"

text \<open>
  The names of \<^verbatim>\<open>all_required_params\<close> that are neither caller-known nor declared by an
  executed unit, in their order. The invariant of the loops says that
  \<^verbatim>\<open>all_required_params_copy\<close> is this list.
\<close>

definition still_unresolved ::
  "decl_table \<Rightarrow> 'v features \<Rightarrow> string list \<Rightarrow> 'v sched \<Rightarrow> string list" where
  "still_unresolved tbl fak arp st =
     [x \<leftarrow> arp. fak x = None \<and> x \<notin> declared_by tbl (executed_units tbl st)]"

definition sched_inv :: "decl_table \<Rightarrow> 'v features \<Rightarrow> string list \<Rightarrow> 'v sched \<Rightarrow> bool" where
  "sched_inv tbl fak arp st =
     (distinct (funcnames st) \<and> set (funcnames st) \<subseteq> set (map fst tbl) \<and>
      all_required_params_copy st = still_unresolved tbl fak arp st)"

text \<open>The test of line 192, negated: the unit is run in this pass of the loop body.\<close>

definition runnable :: "'v sched \<Rightarrow> req_prov \<Rightarrow> bool" where
  "runnable st d = (set (all_required_params_copy st) \<inter> set (requires d) = {})"

section \<open>Example declaration tables\<close>

text \<open>
  One unit that declares the output \<^verbatim>\<open>z\<close>; the mutual cycle, unit \<^verbatim>\<open>A\<close> requiring
  \<^verbatim>\<open>y\<close> and providing \<^verbatim>\<open>x\<close>, unit \<^verbatim>\<open>B\<close> requiring \<^verbatim>\<open>x\<close> and providing \<^verbatim>\<open>y\<close>;
  a chain of three units; and two units that provide the same name. The unit functions
  of the last two return fixed integers.
\<close>

definition z_table :: decl_table where
  "z_table = [(''f'', \<lparr>requires = [''t''], provides = [''z'']\<rparr>)]"

definition cycle_table :: decl_table where
  "cycle_table = [(''A'', \<lparr>requires = [''y''], provides = [''x'']\<rparr>),
                  (''B'', \<lparr>requires = [''x''], provides = [''y'']\<rparr>)]"

definition chain_table :: decl_table where
  "chain_table = [(''A'', \<lparr>requires = [''t''], provides = [''x'']\<rparr>),
                  (''C'', \<lparr>requires = [''t''], provides = [''z'']\<rparr>),
                  (''B'', \<lparr>requires = [''x''], provides = [''y'']\<rparr>)]"

definition chain_defs :: "string \<Rightarrow> int unit_fn" where
  "chain_defs funcname kwargs =
     Inr (if funcname = ''A'' then [''x'' \<mapsto> 1]
          else if funcname = ''B'' then [''y'' \<mapsto> 2]
          else [''z'' \<mapsto> 3])"

definition same_name_table :: decl_table where
  "same_name_table = [(''A'', \<lparr>requires = [''t''], provides = [''x'']\<rparr>),
                      (''B'', \<lparr>requires = [''t''], provides = [''x'']\<rparr>)]"

definition same_name_defs :: "string \<Rightarrow> int unit_fn" where
  "same_name_defs funcname kwargs =
     Inr (if funcname = ''A'' then [''x'' \<mapsto> 1] else [''x'' \<mapsto> 2])"

section \<open>The extractor \<^verbatim>\<open>parse_for_req_prov_params\<close> (lines 118-142)\<close>

subsection \<open>Python's string operations\<close>

text \<open>
  A character of the model is a code point of the decoded script below 256. The file
  is opened in text mode, where a carriage return, a line feed and the pair of them each
  end a line and are read as one line feed; \<^verbatim>\<open>f.readlines()\<close> cuts the text after every
  line feed and keeps it.
\<close>

fun universal_newlines :: "string \<Rightarrow> string" where
  "universal_newlines [] = []"
| "universal_newlines [c] = (if c = CHR 0x0D then [CHR 0x0A] else [c])"
| "universal_newlines (c # d # cs) =
     (if c = CHR 0x0D
      then (if d = CHR 0x0A then CHR 0x0A # universal_newlines cs
            else CHR 0x0A # universal_newlines (d # cs))
      else c # universal_newlines (d # cs))"

fun split_lines :: "string \<Rightarrow> string list" where
  "split_lines [] = []"
| "split_lines (c # cs) =
     (if c = CHR 0x0A then [c] # split_lines cs
      else (case split_lines cs of [] \<Rightarrow> [[c]] | l # ls \<Rightarrow> (c # l) # ls))"

definition readlines :: "string \<Rightarrow> string list" where
  "readlines script = split_lines (universal_newlines script)"

text \<open>\<^verbatim>\<open>needle in line\<close> on strings: \<^verbatim>\<open>needle\<close> occurs in \<^verbatim>\<open>line\<close>.\<close>

fun starts_with :: "string \<Rightarrow> string \<Rightarrow> bool" where
  "starts_with [] line = True"
| "starts_with (c # cs) [] = False"
| "starts_with (c # cs) (d # ds) = (c = d \<and> starts_with cs ds)"

fun str_in :: "string \<Rightarrow> string \<Rightarrow> bool" where
  "str_in needle [] = (needle = [])"
| "str_in needle (d # ds) = (starts_with needle (d # ds) \<or> str_in needle ds)"

text \<open>
  \<^verbatim>\<open>line.strip()\<close>: leading and trailing white space removed, the white space being
  the code points below 256 for which \<^verbatim>\<open>str.isspace\<close> holds.
\<close>

definition is_space :: "char \<Rightarrow> bool" where
  "is_space c = (c \<in> set [CHR 0x20, CHR 0x09, CHR 0x0A, CHR 0x0B, CHR 0x0C, CHR 0x0D,
                             CHR 0x1C, CHR 0x1D, CHR 0x1E, CHR 0x1F, CHR 0x85, CHR 0xA0])"

definition strip :: "string \<Rightarrow> string" where
  "strip line = rev (dropWhile is_space (rev (dropWhile is_space line)))"

subsection \<open>The frame of the function and its collaborators\<close>

text \<open>
  Lines 134-141 call \<^verbatim>\<open>eval(text)\<close> with no namespaces, so the text runs in the frame of
  \<^verbatim>\<open>parse_for_req_prov_params\<close>: it cannot rebind a local name, but it reaches the
  objects the names are bound to and can change the mutable ones. The frame holds those:
  the list of lines, the table, the two lists of names, the \<^verbatim>\<open>named\<close> dictionaries of the
  two results of \<^verbatim>\<open>parse\<close> (\<^verbatim>\<open>None\<close> once the attribute is gone), and everything outside
  the function as a world \<^typ>\<open>'w\<close>. The index \<^verbatim>\<open>i\<close> is a number and out of reach.
\<close>

record 'w frame =
  all_lines :: "string list"
  fnames_req_prov_dict :: decl_table
  all_required_params :: "string list"
  all_provided_params :: "string list"
  reqs_provs_1 :: "(string \<rightharpoonup> string) option"
  func_name :: "(string \<rightharpoonup> string) option"
  outside :: 'w

text \<open>
  The function \<^verbatim>\<open>parse\<close> of the third-party package of that name is a parameter: given
  a format and a text it returns the named fields, or \<^verbatim>\<open>None\<close> when the text does not
  match. Python's \<^verbatim>\<open>eval\<close> is a parameter too: it takes the frame and returns it as the
  evaluation leaves it; it raises, or it returns a value, which is taken to be a fresh
  collection of names and is kept as the list of its elements. \<^verbatim>\<open>list(set(xs))\<close>, whose
  order Python does not fix, is the parameter \<^verbatim>\<open>list_set\<close>.
\<close>

type_synonym parser = "string \<Rightarrow> string \<Rightarrow> (string \<rightharpoonup> string) option"
type_synonym 'w evaluator = "string \<Rightarrow> 'w frame \<Rightarrow> (error + string list) \<times> 'w frame"

definition decorator_format :: string where
  "decorator_format = ''@myFeature(requires={requires}, provides={provides})''"

definition header_format :: string where
  "header_format = ''def {funcname}({args}):''"

subsection \<open>The loop\<close>

text \<open>
  \<^verbatim>\<open>d[key] = value\<close> on a dictionary kept as an association list: the value of a key
  already there is replaced where it stands, a new key goes to the end.
\<close>

fun dict_set :: "('k \<times> 'a) list \<Rightarrow> 'k \<Rightarrow> 'a \<Rightarrow> ('k \<times> 'a) list" where
  "dict_set [] key val = [(key, val)]"
| "dict_set ((k, v) # kvs) key val =
     (if k = key then (key, val) # kvs else (k, v) # dict_set kvs key val)"

text \<open>
  The test of line 127 for the lines \<^verbatim>\<open>i\<close> and \<^verbatim>\<open>i + 1\<close>, the second read only when
  the first holds the annotation. The indices come from the length the list had before
  the loop, so a subscript raises when the list has been shortened since.
\<close>

definition out_of_range :: error where
  "out_of_range = IndexError ''list index out of range''"

definition annotated_pair :: "string list \<Rightarrow> nat \<Rightarrow> error + bool" where
  "annotated_pair lines i =
     (if i < length lines
      then (if str_in ''@myFeature'' (lines ! i)
            then (if Suc i < length lines
                  then Inr (str_in ''def '' (lines ! Suc i))
                  else Inl out_of_range)
            else Inr False)
      else Inl out_of_range)"

text \<open>
  \<^verbatim>\<open>obj.named[key]\<close> for a result of \<^verbatim>\<open>parse\<close>: \<^verbatim>\<open>AttributeError\<close> without the
  attribute, \<^verbatim>\<open>KeyError\<close> without the key.
\<close>

definition no_named :: error where
  "no_named = AttributeError ''named''"

definition named_field :: "(string \<rightharpoonup> string) option \<Rightarrow> string \<Rightarrow> error + string" where
  "named_field named key =
     (case named of
        None \<Rightarrow> Inl no_named
      | Some entries \<Rightarrow>
          (case entries key of None \<Rightarrow> Inl (KeyError key) | Some text \<Rightarrow> Inr text))"

text \<open>
  \<^verbatim>\<open>eval(reqs_provs_1.named[key])\<close>. Beside the frame the model keeps the list of the
  texts handed to \<^verbatim>\<open>eval\<close> so far, in the order of the calls.
\<close>

definition eval_named ::
  "'w evaluator \<Rightarrow> string \<Rightarrow> 'w frame \<times> string list
     \<Rightarrow> (error + string list) \<times> 'w frame \<times> string list" where
  "eval_named eval key s =
     (case named_field (reqs_provs_1 (fst s)) key of
        Inl e \<Rightarrow> (Inl e, s)
      | Inr text \<Rightarrow> (case eval text (fst s) of (r, fr') \<Rightarrow> (r, (fr', snd s @ [text]))))"

text \<open>
  Lines 128-141 for one annotated pair, in Python's order of evaluation: both calls of
  \<^verbatim>\<open>parse\<close>; for the assignment of line 133 first the right-hand side, which evaluates
  the two captured texts, then the dictionary and the key, which reads \<^verbatim>\<open>func_name.named\<close>
  and fails when \<^verbatim>\<open>parse\<close> gave \<^verbatim>\<open>None\<close>; then each text is evaluated a second time,
  and each list of names is read after the evaluation that precedes its rebinding.
\<close>

definition record_pair ::
  "parser \<Rightarrow> 'w evaluator \<Rightarrow> (string list \<Rightarrow> string list) \<Rightarrow> nat
     \<Rightarrow> 'w frame \<times> string list \<Rightarrow> (error + unit) \<times> 'w frame \<times> string list" where
  "record_pair parse eval list_set i s =
     (let decorator = parse decorator_format (strip (all_lines (fst s) ! i));
          header = parse header_format (strip (all_lines (fst s) ! Suc i));
          s1 = ((fst s)\<lparr>reqs_provs_1 := decorator, func_name := header\<rparr>, snd s) in
      case eval_named eval ''requires'' s1 of
        (Inl e, s2) \<Rightarrow> (Inl e, s2)
      | (Inr reqs, s2) \<Rightarrow>
      (case eval_named eval ''provides'' s2 of
        (Inl e, s3) \<Rightarrow> (Inl e, s3)
      | (Inr provs, s3) \<Rightarrow>
      (case (if header = None then Inl no_named
             else named_field (func_name (fst s3)) ''funcname'') of
        Inl e \<Rightarrow> (Inl e, s3)
      | Inr funcname \<Rightarrow>
      (let s4 = ((fst s3)\<lparr>fnames_req_prov_dict :=
                              dict_set (fnames_req_prov_dict (fst s3)) funcname
                                \<lparr>requires = reqs, provides = provs\<rparr>\<rparr>, snd s3) in
       case eval_named eval ''requires'' s4 of
        (Inl e, s5) \<Rightarrow> (Inl e, s5)
      | (Inr reqs2, s5) \<Rightarrow>
      (let s6 = ((fst s5)\<lparr>all_required_params :=
                              list_set (all_required_params (fst s5) @ list_set reqs2)\<rparr>,
                 snd s5) in
       case eval_named eval ''provides'' s6 of
        (Inl e, s7) \<Rightarrow> (Inl e, s7)
      | (Inr provs2, s7) \<Rightarrow>
          (Inr (),
           ((fst s7)\<lparr>all_provided_params :=
                        list_set (all_provided_params (fst s7) @ list_set provs2)\<rparr>,
            snd s7)))))))"

text \<open>The body of the \<^verbatim>\<open>for\<close> loop of line 126 for one index.\<close>

definition extract_step ::
  "parser \<Rightarrow> 'w evaluator \<Rightarrow> (string list \<Rightarrow> string list) \<Rightarrow> nat
     \<Rightarrow> 'w frame \<times> string list \<Rightarrow> (error + unit) \<times> 'w frame \<times> string list" where
  "extract_step parse eval list_set i s =
     (case annotated_pair (all_lines (fst s)) i of
        Inl e \<Rightarrow> (Inl e, s)
      | Inr True \<Rightarrow> record_pair parse eval list_set i s
      | Inr False \<Rightarrow> (Inr (), s))"

text \<open>The loop over a list of indices; an exception ends it.\<close>

fun extract_loop ::
  "parser \<Rightarrow> 'w evaluator \<Rightarrow> (string list \<Rightarrow> string list) \<Rightarrow> nat list
     \<Rightarrow> 'w frame \<times> string list \<Rightarrow> (error + unit) \<times> 'w frame \<times> string list" where
  "extract_loop parse eval list_set [] s = (Inr (), s)"
| "extract_loop parse eval list_set (i # rest) s =
     (case extract_step parse eval list_set i s of
        (Inl e, s') \<Rightarrow> (Inl e, s')
      | (Inr u, s') \<Rightarrow> extract_loop parse eval list_set rest s')"

text \<open>
  The function, given the text of the file at \<^verbatim>\<open>script_fpath\<close> and the world outside.
  The indices are \<^verbatim>\<open>range(len(all_lines) - 1)\<close>, fixed before the loop and empty for a
  file of no line. It returns the tuple of line 142 or the exception, with the frame and
  the texts evaluated.
\<close>

definition initial_frame :: "string \<Rightarrow> 'w \<Rightarrow> 'w frame" where
  "initial_frame script w =
     \<lparr>all_lines = readlines script, fnames_req_prov_dict = [], all_required_params = [],
      all_provided_params = [], reqs_provs_1 = None, func_name = None, outside = w\<rparr>"

definition parse_for_req_prov_params ::
  "parser \<Rightarrow> 'w evaluator \<Rightarrow> (string list \<Rightarrow> string list) \<Rightarrow> string \<Rightarrow> 'w
     \<Rightarrow> (error + decl_table \<times> string list \<times> string list) \<times> 'w frame \<times> string list" where
  "parse_for_req_prov_params parse eval list_set script w =
     (case extract_loop parse eval list_set [0 ..< length (readlines script) - 1]
             (initial_frame script w, []) of
        (Inl e, s) \<Rightarrow> (Inl e, s)
      | (Inr u, s) \<Rightarrow>
          (Inr (fnames_req_prov_dict (fst s), all_required_params (fst s),
                all_provided_params (fst s)), s))"

text \<open>
  \<^verbatim>\<open>execute_functions_in_order\<close> (lines 261-268): the extractor, then the scheduler on
  its table. Line 265 passes \<^verbatim>\<open>all_required_params\<close> twice.
\<close>

definition execute_functions_in_order ::
  "nat \<Rightarrow> parser \<Rightarrow> 'w evaluator \<Rightarrow> (string list \<Rightarrow> string list) \<Rightarrow> (string \<Rightarrow> 'v unit_fn)
     \<Rightarrow> string \<Rightarrow> 'v features \<Rightarrow> 'w \<Rightarrow> (error + 'v features) option \<times> 'w" where
  "execute_functions_in_order fuel parse eval list_set custom_feature_defs script
       features_already_known w =
     (case parse_for_req_prov_params parse eval list_set script w of
        (Inl e, s) \<Rightarrow> (Some (Inl e), outside (fst s))
      | (Inr (table, required, provided), s) \<Rightarrow>
          (call_custom_functions fuel custom_feature_defs features_already_known
             required required table, outside (fst s)))"

subsection \<open>Stand-ins for the collaborators on the examples\<close>

text \<open>
  A matcher for formats made of literal text and \<^verbatim>\<open>{name}\<close> fields: a field takes the
  shortest non-empty text after which the rest of the format matches, and the whole text
  must be used up. It stands for \<^verbatim>\<open>parse\<close> on the two formats above.
\<close>

datatype fmt_item = Lit string | Field string

fun match_items :: "fmt_item list \<Rightarrow> string \<Rightarrow> (string \<rightharpoonup> string) option"
  and match_field :: "string \<Rightarrow> fmt_item list \<Rightarrow> string \<Rightarrow> string \<Rightarrow> (string \<rightharpoonup> string) option"
where
  "match_items [] text = (if text = [] then Some Map.empty else None)"
| "match_items (Lit l # items) text =
     (if starts_with l text then match_items items (drop (length l) text) else None)"
| "match_items (Field name # items) text =
     (case text of [] \<Rightarrow> None | c # cs \<Rightarrow> match_field name items [c] cs)"
| "match_field name items taken [] =
     (case match_items items [] of None \<Rightarrow> None | Some m \<Rightarrow> Some (m(name \<mapsto> taken)))"
| "match_field name items taken (c # cs) =
     (case match_items items (c # cs) of
        Some m \<Rightarrow> Some (m(name \<mapsto> taken))
      | None \<Rightarrow> match_field name items (taken @ [c]) cs)"

definition decorator_items :: "fmt_item list" where
  "decorator_items =
     [Lit ''@myFeature(requires='', Field ''requires'', Lit '', provides='',
      Field ''provides'', Lit '')'']"

definition header_items :: "fmt_item list" where
  "header_items = [Lit ''def '', Field ''funcname'', Lit ''('', Field ''args'', Lit ''):'']"

definition parse_formats :: parser where
  "parse_formats format text =
     (if format = decorator_format then match_items decorator_items text
      else if format = header_format then match_items header_items text
      else None)"

text \<open>
  An evaluator for a bracketed list of double-quoted names; any other text raises. It
  leaves the frame as it is.
\<close>

fun scan_names :: "bool \<Rightarrow> string \<Rightarrow> string list \<Rightarrow> string \<Rightarrow> string list option" where
  "scan_names quoted cur names [] = None"
| "scan_names quoted cur names (c # cs) =
     (if quoted
      then (if c = CHR 0x22 then scan_names False [] (names @ [cur]) cs
            else scan_names True (cur @ [c]) names cs)
      else (if c = CHR 0x22 then scan_names True [] names cs
            else if c = CHR '','' \<or> c = CHR '' '' then scan_names False [] names cs
            else if c = CHR '']'' \<and> cs = [] then Some names
            else None))"

definition eval_names :: "'w evaluator" where
  "eval_names text fr =
     (case text of
        [] \<Rightarrow> (Inl (RaisedByCallee ''SyntaxError''), fr)
      | c # cs \<Rightarrow>
          (if c = CHR ''[''
           then (case scan_names False [] [] cs of
                   None \<Rightarrow> (Inl (RaisedByCallee ''SyntaxError''), fr)
                 | Some names \<Rightarrow> (Inr names, fr))
           else (Inl (RaisedByCallee ''SyntaxError''), fr)))"


text \<open>The example scripts.\<close>

definition quote :: "string \<Rightarrow> string" where
  "quote name = CHR 0x22 # name @ [CHR 0x22]"

definition decorator_line :: "string \<Rightarrow> string \<Rightarrow> string" where
  "decorator_line requires_text provides_text =
     ''@myFeature(requires='' @ requires_text @ '', provides='' @ provides_text @ '')'' @ [CHR 0x0A]"



definition malformed_script :: string where
  "malformed_script =
     ''@myFeature(provides=['' @ quote ''x'' @ ''])'' @ [CHR 0x0A] @ ''def f(t):'' @ [CHR 0x0A]"

subsection \<open>Names for what the extractor reads\<close>


text \<open>
  An annotated pair is malformed when the decorator line does not match its format or
  gives no \<^verbatim>\<open>requires\<close> text, or evaluating that text always raises, or the header
  line does not match its format, or, the first evaluation leaving the result of
  \<^verbatim>\<open>parse\<close> as it is, there is no \<^verbatim>\<open>provides\<close> text or evaluating it always raises.
\<close>

definition malformed_pair :: "parser \<Rightarrow> 'w evaluator \<Rightarrow> string list \<Rightarrow> nat \<Rightarrow> bool" where
  "malformed_pair parse eval lines i =
     (case parse decorator_format (strip (lines ! i)) of
        None \<Rightarrow> True
      | Some named \<Rightarrow>
          (case named ''requires'' of
             None \<Rightarrow> True
           | Some requires_text \<Rightarrow>
               (\<forall>fr. isl (fst (eval requires_text fr))) \<or>
               parse header_format (strip (lines ! Suc i)) = None \<or>
               ((\<forall>fr. reqs_provs_1 (snd (eval requires_text fr)) = reqs_provs_1 fr) \<and>
                (case named ''provides'' of
                   None \<Rightarrow> True
                 | Some provides_text \<Rightarrow> (\<forall>fr. isl (fst (eval provides_text fr)))))))"


text \<open>
  A script with an annotation line followed by an assignment, then an annotated
  function.
\<close>

definition mixed_script :: string where
  "mixed_script =
     decorator_line (''['' @ quote ''t'' @ '']'') (''['' @ quote ''x'' @ '']'')
     @ ''x = 1'' @ [CHR 0x0A]
     @ decorator_line (''['' @ quote ''t'' @ '']'') (''['' @ quote ''z'' @ '']'')
     @ ''def g(t):'' @ [CHR 0x0A]"


section \<open>Isolated execution: \<^verbatim>\<open>docker_extract_features\<close> (lines 271-442)\<close>

subsection \<open>The file system\<close>

text \<open>
  The files and the directories that exist, by path. The operations are those of
  \<^verbatim>\<open>os\<close> and \<^verbatim>\<open>shutil\<close> that the code calls, with the exceptions they raise.
\<close>

record filesystem =
  files :: "string set"
  dirs :: "string set"

definition path_exists :: "filesystem \<Rightarrow> string \<Rightarrow> bool" where
  "path_exists fs path = (path \<in> files fs \<or> path \<in> dirs fs)"

definition path_join :: "string \<Rightarrow> string \<Rightarrow> string" where
  "path_join a b = a @ ''/'' @ b"

text \<open>\<^verbatim>\<open>os.makedirs(path)\<close> for a path two levels below an existing directory.\<close>

definition makedirs :: "string \<Rightarrow> string \<Rightarrow> filesystem \<Rightarrow> error + filesystem" where
  "makedirs parent path fs =
     (if path_exists fs path then Inl (OSError path)
      else Inr (fs\<lparr>dirs := insert path (insert parent (dirs fs))\<rparr>))"

text \<open>\<^verbatim>\<open>shutil.copy(src, dst)\<close> and \<^verbatim>\<open>open(path, "w")\<close>.\<close>

definition copy_file :: "string \<Rightarrow> string \<Rightarrow> filesystem \<Rightarrow> error + filesystem" where
  "copy_file src dst fs =
     (if src \<in> files fs then Inr (fs\<lparr>files := insert dst (files fs)\<rparr>) else Inl (IOError src))"

definition write_file :: "string \<Rightarrow> filesystem \<Rightarrow> filesystem" where
  "write_file path fs = fs\<lparr>files := insert path (files fs)\<rparr>"

text \<open>
  \<^verbatim>\<open>os.remove(path)\<close> inside \<^verbatim>\<open>try ... except OSError: pass\<close> (lines 389-392): a file
  is removed, anything else raises \<^verbatim>\<open>OSError\<close>, which is swallowed.
\<close>

definition remove_quietly :: "string \<Rightarrow> filesystem \<Rightarrow> filesystem" where
  "remove_quietly path fs =
     (if path \<in> files fs then fs\<lparr>files := files fs - {path}\<rparr> else fs)"

subsection \<open>Staging\<close>

text \<open>
  \<^verbatim>\<open>make_tmp_dir\<close> (lines 271-281). The two paths of \<^verbatim>\<open>cfg\<close> and the ten characters
  taken from \<^verbatim>\<open>uuid.uuid4()\<close> are parameters.
\<close>

definition make_tmp_dir ::
  "string \<Rightarrow> string \<Rightarrow> string \<Rightarrow> filesystem \<Rightarrow> error + (string \<times> filesystem)" where
  "make_tmp_dir project_path_link project_path uuid10 fs =
     (let proj_path = (if path_exists fs project_path_link then project_path_link
                       else project_path);
          path_to_tmp_dir = path_join (path_join proj_path ''tmp'') uuid10 in
      case makedirs (path_join proj_path ''tmp'') path_to_tmp_dir fs of
        Inl e \<Rightarrow> Inl e
      | Inr fs' \<Rightarrow> Inr (path_to_tmp_dir, fs'))"

text \<open>
  \<^verbatim>\<open>copy_data_to_tmp_dir\<close> (lines 290-301): the script is copied, the known values are
  pickled into a file, and an empty \<^verbatim>\<open>__init__.py\<close> is created.
\<close>

definition copy_data_to_tmp_dir :: "string \<Rightarrow> string \<Rightarrow> filesystem \<Rightarrow> error + filesystem" where
  "copy_data_to_tmp_dir path_to_tmp_dir script_fpath fs =
     (case copy_file script_fpath (path_join path_to_tmp_dir ''custom_feature_defs.py'') fs of
        Inl e \<Rightarrow> Inl e
      | Inr fs1 \<Rightarrow>
          Inr (write_file (path_join path_to_tmp_dir ''__init__.py'')
                 (write_file (path_join path_to_tmp_dir ''features_already_known.pkl'') fs1)))"

subsection \<open>The container\<close>

text \<open>
  \<^verbatim>\<open>extract_feats_in_docker_container\<close> (lines 327-376). What the Docker client does
  inside the \<^verbatim>\<open>try\<close> block is the parameter \<^verbatim>\<open>container_run\<close>: it returns the unpickled
  result, or it raises, and then says whether \<^verbatim>\<open>client\<close> and \<^verbatim>\<open>cont_id\<close> were both
  bound by then. The \<^verbatim>\<open>finally\<close> block calls \<^verbatim>\<open>client.remove_container\<close>, whose outcome is
  the parameter \<^verbatim>\<open>remove_container\<close>; with an unbound name the call raises
  \<^verbatim>\<open>UnboundLocalError\<close>, which is caught. An exception that leaves the \<^verbatim>\<open>finally\<close>
  block replaces the outcome of the \<^verbatim>\<open>try\<close> block.
\<close>

type_synonym 'r container_run = "string \<Rightarrow> filesystem \<Rightarrow> ((error \<times> bool) + 'r) \<times> filesystem"

definition extract_feats_in_docker_container ::
  "'r container_run \<Rightarrow> error option \<Rightarrow> string \<Rightarrow> filesystem \<Rightarrow> (error + 'r) \<times> filesystem" where
  "extract_feats_in_docker_container container_run remove_container path_to_tmp_dir fs =
     (case container_run path_to_tmp_dir fs of
        (Inl (e, bound), fs') \<Rightarrow>
          (if bound
           then (case remove_container of Some e2 \<Rightarrow> (Inl e2, fs') | None \<Rightarrow> (Inl e, fs'))
           else (Inl e, fs'))
      | (Inr results, fs') \<Rightarrow>
          (case remove_container of Some e2 \<Rightarrow> (Inl e2, fs') | None \<Rightarrow> (Inr results, fs')))"

subsection \<open>Cleaning up and the whole run\<close>

text \<open>
  \<^verbatim>\<open>remove_tmp_files\<close> (lines 378-393). \<^verbatim>\<open>shutil.rmtree(path, ignore_errors=True)\<close> never
  raises and may leave anything behind, so it is a parameter; the folder of \<^verbatim>\<open>cfg\<close> is
  one too.
\<close>

definition remove_tmp_files ::
  "(string \<Rightarrow> filesystem \<Rightarrow> filesystem) \<Rightarrow> string \<Rightarrow> string \<Rightarrow> filesystem \<Rightarrow> filesystem" where
  "remove_tmp_files rmtree tmp_custom_feats_folder path_to_tmp_dir fs =
     foldl (\<lambda>fs' tmp_file. remove_quietly tmp_file fs') (rmtree path_to_tmp_dir fs)
       [path_join tmp_custom_feats_folder ''custom_feature_defs.py'',
        path_join tmp_custom_feats_folder ''custom_feature_defs.pyc'',
        path_join tmp_custom_feats_folder ''__init__.pyc'']"

text \<open>
  \<^verbatim>\<open>docker_extract_features\<close> (lines 430-442). The two staging calls stand before the
  \<^verbatim>\<open>try\<close>; \<^verbatim>\<open>remove_tmp_files\<close> is the \<^verbatim>\<open>finally\<close> block of the container step.
\<close>

definition docker_extract_features ::
  "string \<Rightarrow> string \<Rightarrow> string \<Rightarrow> string \<Rightarrow> (string \<Rightarrow> filesystem \<Rightarrow> filesystem)
     \<Rightarrow> 'r container_run \<Rightarrow> error option \<Rightarrow> string \<Rightarrow> filesystem
     \<Rightarrow> (error + 'r) \<times> filesystem" where
  "docker_extract_features project_path_link project_path tmp_custom_feats_folder uuid10 rmtree
       container_run remove_container script_fpath fs =
     (case make_tmp_dir project_path_link project_path uuid10 fs of
        Inl e \<Rightarrow> (Inl e, fs)
      | Inr (path_to_tmp_dir, fs1) \<Rightarrow>
          (case copy_data_to_tmp_dir path_to_tmp_dir script_fpath fs1 of
             Inl e \<Rightarrow> (Inl e, fs1)
           | Inr fs2 \<Rightarrow>
               (case extract_feats_in_docker_container container_run remove_container
                       path_to_tmp_dir fs2 of
                  (outcome, fs3) \<Rightarrow>
                    (outcome,
                     remove_tmp_files rmtree tmp_custom_feats_folder path_to_tmp_dir fs3))))"

text \<open>
  An \<^verbatim>\<open>rmtree\<close> that succeeds: the directory and every path below it are gone. A
  container step that crashes with both names bound.
\<close>

definition rmtree_all :: "string \<Rightarrow> filesystem \<Rightarrow> filesystem" where
  "rmtree_all path fs =
     \<lparr>files = {f \<in> files fs. \<not> starts_with (path @ ''/'') f},
      dirs = {d \<in> dirs fs. d \<noteq> path \<and> \<not> starts_with (path @ ''/'') d}\<rparr>"

definition crashing_run :: "unit container_run" where
  "crashing_run path_to_tmp_dir fs = (Inl (RaisedByCallee ''container crashed'', True), fs)"

definition project_only :: filesystem where
  "project_only = \<lparr>files = {}, dirs = {''/proj''}\<rparr>"

definition project_with_script :: filesystem where
  "project_with_script = \<lparr>files = {''/proj/feats.py''}, dirs = {''/proj''}\<rparr>"

section \<open>\<^verbatim>\<open>generate_custom_features\<close> (lines 538-594)\<close>

text \<open>
  Lines 565-573, the writes to the dictionary \<^verbatim>\<open>features_already_known\<close>. The values
  \<^verbatim>\<open>t\<close>, \<^verbatim>\<open>m\<close> and \<^verbatim>\<open>e\<close> are array-like, \<^verbatim>\<open>e\<close> possibly \<^verbatim>\<open>None\<close>; \<^verbatim>\<open>len\<close> and
  \<^verbatim>\<open>np.array\<close> are parameters.
\<close>

definition add_ts_data ::
  "('v \<Rightarrow> 'v) \<Rightarrow> ('v \<Rightarrow> nat) \<Rightarrow> 'v \<Rightarrow> 'v \<Rightarrow> 'v option \<Rightarrow> 'v features \<Rightarrow> 'v features" where
  "add_ts_data np_array len t m e features_already_known =
     (let known1 = (if features_already_known ''t'' = None
                    then features_already_known(''t'' \<mapsto> t) else features_already_known);
          known2 = (if known1 ''m'' = None then known1(''m'' \<mapsto> m) else known1);
          known3 = (case e of
                      None \<Rightarrow> known2
                    | Some ev \<Rightarrow>
                        (if len ev = len m \<and> known2 ''e'' = None
                         then known2(''e'' \<mapsto> ev) else known2))
      in foldl (\<lambda>known k. case known k of
                             None \<Rightarrow> known
                           | Some v \<Rightarrow> known(k \<mapsto> np_array v))
           known3 [''t'', ''m'', ''e''])"

text \<open>
  The whole function: the dictionary is written, then one of the two ways of running
  the script is chosen from the environment. It returns the outcome together with the
  dictionary as the call leaves it.
\<close>

definition generate_custom_features ::
  "('v \<Rightarrow> 'v) \<Rightarrow> ('v \<Rightarrow> nat) \<Rightarrow> bool \<Rightarrow> bool \<Rightarrow> bool
     \<Rightarrow> ('v features \<Rightarrow> error + 'v features) \<Rightarrow> ('v features \<Rightarrow> error + 'v features)
     \<Rightarrow> 'v \<Rightarrow> 'v \<Rightarrow> 'v option \<Rightarrow> 'v features \<Rightarrow> (error + 'v features) \<times> 'v features" where
  "generate_custom_features np_array len is_running_in_docker no_docker docker_images_available
       execute_in_order docker_extract t m e features_already_known =
     (let known = add_ts_data np_array len t m e features_already_known in
      (if is_running_in_docker then execute_in_order known
       else if docker_images_available \<and> \<not> no_docker then docker_extract known
       else if no_docker then execute_in_order known
       else Inl (Exception ''Docker image not available.''),
       known))"

text \<open>
  A call with the argument given or left out. The default \<^verbatim>\<open>{}\<close> of line 539 is one
  dictionary made when the function is defined; a call that leaves the argument out
  works on that dictionary. The call returns the outcome, the caller's dictionary if one
  was given, and the default dictionary.
\<close>

definition call_generate_custom_features ::
  "('v \<Rightarrow> 'v) \<Rightarrow> ('v \<Rightarrow> nat) \<Rightarrow> bool \<Rightarrow> bool \<Rightarrow> bool
     \<Rightarrow> ('v features \<Rightarrow> error + 'v features) \<Rightarrow> ('v features \<Rightarrow> error + 'v features)
     \<Rightarrow> 'v \<Rightarrow> 'v \<Rightarrow> 'v option \<Rightarrow> 'v features option \<Rightarrow> 'v features
     \<Rightarrow> (error + 'v features) \<times> 'v features option \<times> 'v features" where
  "call_generate_custom_features np_array len is_running_in_docker no_docker
       docker_images_available execute_in_order docker_extract t m e argument default_dict =
     (case argument of
        Some features_already_known \<Rightarrow>
          (case generate_custom_features np_array len is_running_in_docker no_docker
                  docker_images_available execute_in_order docker_extract t m e
                  features_already_known of
             (outcome, known) \<Rightarrow> (outcome, Some known, default_dict))
      | None \<Rightarrow>
          (case generate_custom_features np_array len is_running_in_docker no_docker
                  docker_images_available execute_in_order docker_extract t m e default_dict of
             (outcome, known) \<Rightarrow> (outcome, None, known)))"

section \<open>Properties of the guard and the scheduler\<close>


lemma find_None_iff2: "(find P xs = None) = (\<forall>x\<in>set xs. \<not> P x)"
  by (induction xs) auto

lemma find_SomeD: "find P xs = Some x \<Longrightarrow> x \<in> set xs \<and> P x"
  by (induction xs) (auto split: if_splits)

lemma wrapped_f_missing:
  assumes "\<forall>r\<in>set (requires self). kwargs r \<noteq> None"
    and "f kwargs = Inr result_dict"
    and "\<exists>p\<in>set (provides self). result_dict p = None"
  shows "\<exists>p\<in>set (provides self). result_dict p = None \<and>
           wrapped_f self f kwargs = Inl (MissingRequiredReturnKeyError (missing_key_msg p))"
proof -
  from assms(1) have pre: "find (\<lambda>required_arg. kwargs required_arg = None) (requires self) = None"
    by (simp add: find_None_iff2)
  from assms(3) obtain p where p: "find (\<lambda>provided. result_dict provided = None) (provides self) = Some p"
    by (cases "find (\<lambda>provided. result_dict provided = None) (provides self)")
       (auto simp: find_None_iff2)
  from find_SomeD [OF p] have "p \<in> set (provides self)" "result_dict p = None" by auto
  moreover have "wrapped_f self f kwargs = Inl (MissingRequiredReturnKeyError (missing_key_msg p))"
    by (simp add: wrapped_f_def pre assms(2) p)
  ultimately show ?thesis by blast
qed

lemma wrapped_f_complete:
  assumes "\<forall>r\<in>set (requires self). kwargs r \<noteq> None"
    and "f kwargs = Inr result_dict"
    and "\<forall>p\<in>set (provides self). result_dict p \<noteq> None"
  shows "wrapped_f self f kwargs = Inr result_dict"
proof -
  from assms(1) have pre: "find (\<lambda>required_arg. kwargs required_arg = None) (requires self) = None"
    by (simp add: find_None_iff2)
  from assms(3) have post: "find (\<lambda>provided. result_dict provided = None) (provides self) = None"
    by (simp add: find_None_iff2)
  show ?thesis by (simp add: wrapped_f_def pre post assms(2))
qed

text \<open>
  Claim C5. A unit invoked through the guard whose function returns a mapping that lacks
  a name of its \<^verbatim>\<open>provides\<close> list raises \<^verbatim>\<open>MissingRequiredReturnKeyError\<close>, whose message
  \<^verbatim>\<open>Key ... not present in function return value.\<close> holds the first name of the
  \<^verbatim>\<open>provides\<close> list that the mapping lacks, and the \<^verbatim>\<open>for\<close> loop of the scheduler ends
  with that error, so that nothing the unit returned is merged into the extracted
  features; when every provided name is present the guard returns the mapping unchanged
  and the scheduler merges all of it.
\<close>

theorem missing_return_key_aborts:
  assumes idx: "idx < length (funcnames st)"
    and decl: "map_of tbl (funcnames st ! idx) = Some self"
    and free: "set (all_required_params_copy st) \<inter> set (requires self) = {}"
    and round: "func_rounds st i = Some this_round"
    and guarded: "defs (funcnames st ! idx) = wrapped_f self f"
    and kwargs: "kwargs = arguments_of fak (all_extracted_features st) (requires self)"
    and given: "\<forall>r\<in>set (requires self). kwargs r \<noteq> None"
    and returned: "f kwargs = Inr result_dict"
  shows "if \<exists>p\<in>set (provides self). result_dict p = None
         then \<exists>p\<in>set (provides self). result_dict p = None \<and>
                find (\<lambda>provided. result_dict provided = None) (provides self) = Some p \<and>
                wrapped_f self f kwargs =
                  Inl (MissingRequiredReturnKeyError
                         (''Key '' @ p @ '' not present in function return value.'')) \<and>
                for_loop defs tbl fak i idx st =
                  Inl (MissingRequiredReturnKeyError
                         (''Key '' @ p @ '' not present in function return value.''))
         else wrapped_f self f kwargs = Inr result_dict \<and>
              (\<exists>st'. loop_body defs tbl fak i idx st = Inr st' \<and>
                 all_extracted_features st' = all_extracted_features st ++ result_dict)"
proof (cases "\<exists>p\<in>set (provides self). result_dict p = None")
  case True
  from given have pre:
    "find (\<lambda>required_arg. kwargs required_arg = None) (requires self) = None"
    by (simp add: find_None_iff2)
  from True obtain p where
    first: "find (\<lambda>provided. result_dict provided = None) (provides self) = Some p"
    by (cases "find (\<lambda>provided. result_dict provided = None) (provides self)")
       (auto simp: find_None_iff2)
  from find_SomeD [OF first] have p: "p \<in> set (provides self)" "result_dict p = None"
    by auto
  have w: "wrapped_f self f kwargs =
             Inl (MissingRequiredReturnKeyError
                    (''Key '' @ p @ '' not present in function return value.''))"
    by (simp add: wrapped_f_def pre returned first missing_key_msg_def)
  have "loop_body defs tbl fak i idx st =
          Inl (MissingRequiredReturnKeyError
                 (''Key '' @ p @ '' not present in function return value.''))"
    using decl free round guarded w kwargs
    by (simp add: loop_body_def Let_def)
  then have "for_loop defs tbl fak i idx st =
          Inl (MissingRequiredReturnKeyError
                 (''Key '' @ p @ '' not present in function return value.''))"
    using idx by (subst for_loop.simps) simp
  with p first w True show ?thesis by auto
next
  case False
  then have all: "\<forall>p\<in>set (provides self). result_dict p \<noteq> None" by simp
  have w: "wrapped_f self f kwargs = Inr result_dict"
    using wrapped_f_complete [of self kwargs f result_dict] given returned all by blast
  have "\<exists>st'. loop_body defs tbl fak i idx st = Inr st' \<and>
                 all_extracted_features st' = all_extracted_features st ++ result_dict"
    using decl free round guarded w kwargs
    by (simp add: loop_body_def Let_def)
  with w False show ?thesis by auto
qed

theorem missing_return_key_aborts_witness:
  "wrapped_f \<lparr>requires = [''t''], provides = [''z'']\<rparr> (\<lambda>kw. Inr [''w'' \<mapsto> (1::int)]) [''t'' \<mapsto> 2]
     = Inl (MissingRequiredReturnKeyError ''Key z not present in function return value.'') \<and>
   for_loop (\<lambda>n. wrapped_f \<lparr>requires = [''t''], provides = [''z'']\<rparr> (\<lambda>kw. Inr [''w'' \<mapsto> (1::int)]))
      z_table [''t'' \<mapsto> 2] 0 0
      ((initial_sched [''t'' \<mapsto> 2] [''t''] z_table)\<lparr>func_rounds := [0 \<mapsto> []]\<rparr>)
     = Inl (MissingRequiredReturnKeyError ''Key z not present in function return value.'')"
  using missing_return_key_aborts
      [where idx = 0
         and st = "(initial_sched [''t'' \<mapsto> (2::int)] [''t''] z_table)\<lparr>func_rounds := [0 \<mapsto> []]\<rparr>"
         and tbl = z_table and self = "\<lparr>requires = [''t''], provides = [''z'']\<rparr>"
         and i = 0 and this_round = "[]"
         and defs = "\<lambda>n. wrapped_f \<lparr>requires = [''t''], provides = [''z'']\<rparr>
                           (\<lambda>kw. Inr [''w'' \<mapsto> (1::int)])"
         and f = "\<lambda>kw. Inr [''w'' \<mapsto> (1::int)]" and kwargs = "[''t'' \<mapsto> 2]"
         and fak = "[''t'' \<mapsto> 2]" and result_dict = "[''w'' \<mapsto> 1]"]
  by (simp add: initial_sched_def z_table_def unknown_required_def arguments_of_def)

lemma find_filter_hd:
  "find P xs = (case filter P xs of [] \<Rightarrow> None | x # _ \<Rightarrow> Some x)"
  by (induction xs) auto

text \<open>
  Claim C3 (amended). The dependency check of \<^verbatim>\<open>call_custom_functions\<close> raises exactly
  when some required name is neither caller-known nor in \<^verbatim>\<open>all_provided_params\<close>; the
  exception names the first such name of \<^verbatim>\<open>all_required_params\<close> only, and it is raised
  whatever the units and the number of rounds allowed, that is before any unit runs.
\<close>

theorem dependency_check_first_offender:
  "check_required fak arp app =
     (case [x \<leftarrow> arp. fak x = None \<and> x \<notin> set app] of
        [] \<Rightarrow> None
      | x # _ \<Rightarrow> Some (Exception (unresolved_msg x))) \<and>
   ((check_required fak arp app \<noteq> None) = (set arp - (dom fak \<union> set app) \<noteq> {})) \<and>
   (check_required fak arp app = Some e \<longrightarrow>
      call_custom_functions fuel defs fak arp app tbl = Some (Inl e))"
proof -
  have flt: "filter (\<lambda>reqd_param. reqd_param \<notin> set app) (unknown_required fak arp)
               = [x \<leftarrow> arp. fak x = None \<and> x \<notin> set app]"
    by (simp add: unknown_required_def conj_commute)
  have a: "check_required fak arp app =
     (case [x \<leftarrow> arp. fak x = None \<and> x \<notin> set app] of
        [] \<Rightarrow> None
      | x # _ \<Rightarrow> Some (Exception (unresolved_msg x)))"
    by (simp add: check_required_def find_filter_hd flt split: list.splits)
  have "(check_required fak arp app \<noteq> None) = ([x \<leftarrow> arp. fak x = None \<and> x \<notin> set app] \<noteq> [])"
    by (simp add: a split: list.splits)
  also have "\<dots> = (set arp - (dom fak \<union> set app) \<noteq> {})"
    by (auto simp: filter_empty_conv dom_def)
  finally have b: "(check_required fak arp app \<noteq> None) = (set arp - (dom fak \<union> set app) \<noteq> {})" .
  have c: "check_required fak arp app = Some e \<longrightarrow>
      call_custom_functions fuel defs fak arp app tbl = Some (Inl e)"
    by (simp add: call_custom_functions_def)
  from a b c show ?thesis by blast
qed

theorem dependency_check_first_offender_witness:
  "check_required (Map.empty :: int features) [''u'', ''w''] [] = Some (Exception (unresolved_msg ''u'')) \<and>
   call_custom_functions 0 (\<lambda>n kw. Inr kw) (Map.empty :: int features) [''u'', ''w''] [] []
     = Some (Inl (Exception (unresolved_msg ''u'')))"
  using dependency_check_first_offender [of "Map.empty :: int features" "[''u'', ''w'']" "[]"
      "Exception (unresolved_msg ''u'')" 0 "\<lambda>n kw. Inr kw" "[]"]
  by simp

text \<open>
  \<^verbatim>\<open>execute_functions_in_order\<close> gives the scheduler the required names in the place of
  the provided ones (line 265); the check then never raises.
\<close>

lemma check_required_same_list: "check_required fak arp arp = None"
  by (simp add: check_required_def unknown_required_def find_filter_hd filter_empty_conv
      split: list.splits)

text \<open>
  Claim C3 as stated fails: with the two unresolvable names \<^verbatim>\<open>u\<close> and \<^verbatim>\<open>w\<close> the
  message of the exception holds \<^verbatim>\<open>u\<close> alone.
\<close>

theorem dependency_check_reports_one_name:
  "check_required (Map.empty :: int features) [''u'', ''w''] []
     = Some (Exception
         (''Not all of the required parameters are provided by the functions in this script (required parameter ''
            @ [CHR 0x27] @ ''u'' @ [CHR 0x27] @ '').'')) \<and>
   set [''u'', ''w''] - (dom (Map.empty :: int features) \<union> set []) = {''u'', ''w''}"
  by (simp add: check_required_def unknown_required_def unresolved_msg_def)

lemma cycle_round:
  assumes "funcnames st = [''A'', ''B'']" and "all_required_params_copy st = [''y'', ''x'']"
  shows "\<exists>st'. for_loop defs cycle_table fak i 0 st = Inr st' \<and>
           funcnames st' = [''A'', ''B''] \<and> all_required_params_copy st' = [''y'', ''x'']"
proof -
  let ?s1 = "st\<lparr>func_queue := func_queue st @ [''A'']\<rparr>"
  let ?s2 = "?s1\<lparr>func_queue := func_queue ?s1 @ [''B'']\<rparr>"
  have b0: "loop_body defs cycle_table fak i 0 st = Inr ?s1"
    using assms by (simp add: loop_body_def cycle_table_def)
  have b1: "loop_body defs cycle_table fak i (Suc 0) ?s1 = Inr ?s2"
    using assms by (simp add: loop_body_def cycle_table_def)
  have f2: "for_loop defs cycle_table fak i (Suc (Suc 0)) ?s2 = Inr ?s2"
    using assms by (subst for_loop.simps) simp
  have f1: "for_loop defs cycle_table fak i (Suc 0) ?s1 = Inr ?s2"
    using assms b1 f2 by (subst for_loop.simps) simp
  have f0: "for_loop defs cycle_table fak i 0 st = Inr ?s2"
    using assms b0 f1 by (subst for_loop.simps) simp
  show ?thesis using f0 assms by simp
qed

lemma cycle_while:
  "funcnames st = [''A'', ''B''] \<Longrightarrow> all_required_params_copy st = [''y'', ''x''] \<Longrightarrow>
     while_loop fuel defs cycle_table fak i st = None"
proof (induction fuel arbitrary: st i)
  case 0
  show ?case by simp
next
  case (Suc fuel)
  let ?st0 = "st\<lparr>func_rounds := (func_rounds st)(i \<mapsto> [])\<rparr>"
  have "funcnames ?st0 = [''A'', ''B'']" "all_required_params_copy ?st0 = [''y'', ''x'']"
    using Suc.prems by simp_all
  from cycle_round [OF this, of defs fak i] obtain st' where
    st': "for_loop defs cycle_table fak i 0 ?st0 = Inr st'"
         "funcnames st' = [''A'', ''B'']" "all_required_params_copy st' = [''y'', ''x'']"
    by blast
  from Suc.IH [OF st'(2,3)] have "while_loop fuel defs cycle_table fak (Suc i) st' = None" .
  then show ?case using Suc.prems st'(1) by simp
qed

text \<open>
  Claim C2 fails on the code: on the mutual cycle, with nothing known, the dependency
  check passes and the \<^verbatim>\<open>while\<close> loop is still running after any number of rounds;
  no exception is ever raised.
\<close>

theorem mutual_cycle_never_returns:
  "call_custom_functions fuel defs (Map.empty :: 'v features) [''y'', ''x''] [''x'', ''y''] cycle_table = None"
proof -
  have "check_required (Map.empty :: 'v features) [''y'', ''x''] [''x'', ''y''] = None"
    by (simp add: check_required_def unknown_required_def)
  moreover have "while_loop fuel defs cycle_table (Map.empty :: 'v features) 0
      (initial_sched (Map.empty :: 'v features) [''y'', ''x''] cycle_table) = None"
    by (rule cycle_while) (simp_all add: initial_sched_def cycle_table_def unknown_required_def)
  ultimately show ?thesis by (simp add: call_custom_functions_def)
qed

section \<open>The scheduler's invariant and the order of writes\<close>

lemma declared_by_insert:
  "map_of tbl u = Some d \<Longrightarrow> declared_by tbl (insert u E) = set (provides d) \<union> declared_by tbl E"
  by (simp add: declared_by_def)

lemma sched_inv_initial:
  "distinct (map fst tbl) \<Longrightarrow> sched_inv tbl fak arp (initial_sched fak arp tbl)"
  by (simp add: sched_inv_def initial_sched_def still_unresolved_def executed_units_def
      declared_by_def unknown_required_def)

lemma sched_inv_new_round:
  "sched_inv tbl fak arp st \<Longrightarrow> sched_inv tbl fak arp (st\<lparr>func_rounds := fr\<rparr>)"
  by (simp add: sched_inv_def still_unresolved_def executed_units_def)

lemma runnable_iff:
  assumes "sched_inv tbl fak arp st"
  shows "runnable st d =
     (\<forall>r\<in>set (requires d). r \<in> set arp \<longrightarrow>
         fak r \<noteq> None \<or> r \<in> declared_by tbl (executed_units tbl st))"
  using assms by (auto simp: runnable_def sched_inv_def still_unresolved_def)

lemma loop_body_blocked:
  assumes "map_of tbl (funcnames st ! idx) = Some d" and "\<not> runnable st d"
  shows "loop_body defs tbl fak i idx st = Inr (st\<lparr>func_queue := func_queue st @ [funcnames st ! idx]\<rparr>)"
  using assms by (simp add: loop_body_def runnable_def Let_def)

lemma loop_body_run:
  assumes "map_of tbl (funcnames st ! idx) = Some d" and "runnable st d"
    and "func_rounds st i = Some this_round"
  shows "loop_body defs tbl fak i idx st =
     (case defs (funcnames st ! idx) (arguments_of fak (all_extracted_features st) (requires d)) of
        Inl e \<Rightarrow> Inl e
      | Inr func_result \<Rightarrow>
          Inr (st\<lparr>func_rounds := (func_rounds st)(i \<mapsto> this_round @ [funcnames st ! idx]),
                   all_required_params_copy :=
                     [x \<leftarrow> all_required_params_copy st. x \<notin> set (provides d)],
                   all_extracted_features := all_extracted_features st ++ func_result,
                   funcnames := remove1 (funcnames st ! idx) (funcnames st)\<rparr>))"
  using assms by (simp add: loop_body_def runnable_def Let_def)

lemma loop_body_run_round:
  assumes "map_of tbl (funcnames st ! idx) = Some d" and "runnable st d"
    and "loop_body defs tbl fak i idx st = Inr st'"
  shows "\<exists>this_round. func_rounds st i = Some this_round"
  using assms by (cases "func_rounds st i") (simp_all add: loop_body_def runnable_def Let_def)

lemma executed_after_remove:
  assumes "distinct fn" and "u \<in> set fn" and "set fn \<subseteq> set (map fst tbl)"
  shows "set (map fst tbl) - set (remove1 u fn) = insert u (set (map fst tbl) - set fn)"
  using assms by auto

lemma loop_body_inv:
  assumes inv: "sched_inv tbl fak arp st" and idx: "idx < length (funcnames st)"
    and res: "loop_body defs tbl fak i idx st = Inr st'"
  shows "sched_inv tbl fak arp st'"
proof -
  let ?u = "funcnames st ! idx"
  have u_in: "?u \<in> set (funcnames st)" using idx by simp
  with inv have "?u \<in> set (map fst tbl)" by (auto simp: sched_inv_def)
  then obtain d where d: "map_of tbl ?u = Some d"
    by (cases "map_of tbl ?u") (auto simp: map_of_eq_None_iff)
  show ?thesis
  proof (cases "runnable st d")
    case False
    from loop_body_blocked [OF d False, of defs fak i] res
    have "st' = st\<lparr>func_queue := func_queue st @ [?u]\<rparr>" by simp
    with inv show ?thesis
      by (simp add: sched_inv_def still_unresolved_def executed_units_def)
  next
    case True
    from loop_body_run_round [OF d True res] obtain this_round where
      "func_rounds st i = Some this_round" by blast
    from loop_body_run [OF d True this, of defs fak] res obtain func_result where
      st': "st' = st\<lparr>func_rounds := (func_rounds st)(i \<mapsto> this_round @ [?u]),
                   all_required_params_copy :=
                     [x \<leftarrow> all_required_params_copy st. x \<notin> set (provides d)],
                   all_extracted_features := all_extracted_features st ++ func_result,
                   funcnames := remove1 ?u (funcnames st)\<rparr>"
      by (auto split: sum.splits)
    from inv have dist: "distinct (funcnames st)" and sub: "set (funcnames st) \<subseteq> set (map fst tbl)"
      and cp: "all_required_params_copy st = still_unresolved tbl fak arp st"
      by (simp_all add: sched_inv_def)
    have ex: "executed_units tbl st' = insert ?u (executed_units tbl st)"
      unfolding executed_units_def st' using executed_after_remove [OF dist u_in sub] by simp
    have "all_required_params_copy st' = still_unresolved tbl fak arp st'"
      unfolding still_unresolved_def ex declared_by_insert [OF d]
      by (simp add: st' cp still_unresolved_def conj_commute conj_left_commute)
    moreover have "distinct (funcnames st')" using dist by (simp add: st')
    moreover have "set (funcnames st') \<subseteq> set (map fst tbl)"
      using sub dist by (auto simp: st')
    ultimately show ?thesis by (simp add: sched_inv_def)
  qed
qed

lemma for_loop_inv:
  "sched_inv tbl fak arp st \<Longrightarrow> for_loop defs tbl fak i idx st = Inr st' \<Longrightarrow>
     sched_inv tbl fak arp st'"
proof (induction defs tbl fak i idx st rule: for_loop.induct)
  case (1 defs tbl fak i idx st)
  show ?case
  proof (cases "idx < length (funcnames st)")
    case False
    with "1.prems" show ?thesis by (subst (asm) for_loop.simps) simp
  next
    case True
    from "1.prems"(2) True obtain st1 where
      b: "loop_body defs tbl fak i idx st = Inr st1" and
      r: "for_loop defs tbl fak i (Suc idx) st1 = Inr st'"
      by (subst (asm) for_loop.simps) (auto split: sum.splits)
    from loop_body_inv [OF "1.prems"(1) True b] have "sched_inv tbl fak arp st1" .
    from "1.IH" [OF True b this r] show ?thesis .
  qed
qed

lemma while_loop_inv:
  "sched_inv tbl fak arp st \<Longrightarrow> while_loop fuel defs tbl fak i st = Some (Inr st') \<Longrightarrow>
     sched_inv tbl fak arp st' \<and> funcnames st' = []"
proof (induction fuel arbitrary: st i)
  case 0
  then show ?case by simp
next
  case (Suc fuel)
  show ?case
  proof (cases "funcnames st = []")
    case True
    with Suc.prems show ?thesis by simp
  next
    case False
    with Suc.prems(2) obtain st1 where
      f: "for_loop defs tbl fak i 0 (st\<lparr>func_rounds := (func_rounds st)(i \<mapsto> [])\<rparr>) = Inr st1"
      and w: "while_loop fuel defs tbl fak (Suc i) st1 = Some (Inr st')"
      by (auto split: sum.splits)
    from for_loop_inv [OF sched_inv_new_round [OF Suc.prems(1)] f]
    have "sched_inv tbl fak arp st1" .
    from Suc.IH [OF this w] show ?thesis .
  qed
qed

text \<open>
  Claim C1 (amended). Whenever the loop body examines a pending unit, the unit is run
  if and only if every name of its \<^verbatim>\<open>requires\<close> list that occurs in
  \<^verbatim>\<open>all_required_params\<close> is caller-known or declared in the \<^verbatim>\<open>provides\<close> list of a
  unit executed before it in this run, in an earlier round or earlier in the same round;
  the unit itself is not among those units. A unit found runnable is called at once and,
  unless the call raises, is removed from \<^verbatim>\<open>funcnames\<close> and logged under the current
  round; a unit found blocked is only queued. The invariant assumed holds of the initial
  locals and is kept by every pass.
\<close>

theorem examined_unit_runs_iff_resolved:
  assumes inv: "sched_inv tbl fak arp st"
    and idx: "idx < length (funcnames st)"
    and decl: "map_of tbl (funcnames st ! idx) = Some d"
    and round: "func_rounds st i = Some this_round"
  shows "funcnames st ! idx \<notin> executed_units tbl st \<and>
     (runnable st d =
        (\<forall>r\<in>set (requires d). r \<in> set arp \<longrightarrow>
            fak r \<noteq> None \<or> r \<in> declared_by tbl (executed_units tbl st))) \<and>
     (if runnable st d
      then (case defs (funcnames st ! idx)
                   (arguments_of fak (all_extracted_features st) (requires d)) of
              Inl e \<Rightarrow> loop_body defs tbl fak i idx st = Inl e
            | Inr func_result \<Rightarrow>
                (\<exists>st'. loop_body defs tbl fak i idx st = Inr st' \<and>
                   funcnames st' = remove1 (funcnames st ! idx) (funcnames st) \<and>
                   funcnames st ! idx \<in> executed_units tbl st' \<and>
                   func_rounds st' i = Some (this_round @ [funcnames st ! idx]) \<and>
                   sched_inv tbl fak arp st'))
      else loop_body defs tbl fak i idx st =
             Inr (st\<lparr>func_queue := func_queue st @ [funcnames st ! idx]\<rparr>) \<and>
           sched_inv tbl fak arp (st\<lparr>func_queue := func_queue st @ [funcnames st ! idx]\<rparr>)) \<and>
     (distinct (map fst tbl) \<longrightarrow> sched_inv tbl fak arp (initial_sched fak arp tbl))"
proof -
  let ?u = "funcnames st ! idx"
  have u_in: "?u \<in> set (funcnames st)" using idx by simp
  then have a: "?u \<notin> executed_units tbl st" by (simp add: executed_units_def)
  have b: "runnable st d =
        (\<forall>r\<in>set (requires d). r \<in> set arp \<longrightarrow>
            fak r \<noteq> None \<or> r \<in> declared_by tbl (executed_units tbl st))"
    by (rule runnable_iff [OF inv])
  have c: "if runnable st d
      then (case defs ?u (arguments_of fak (all_extracted_features st) (requires d)) of
              Inl e \<Rightarrow> loop_body defs tbl fak i idx st = Inl e
            | Inr func_result \<Rightarrow>
                (\<exists>st'. loop_body defs tbl fak i idx st = Inr st' \<and>
                   funcnames st' = remove1 ?u (funcnames st) \<and>
                   ?u \<in> executed_units tbl st' \<and>
                   func_rounds st' i = Some (this_round @ [?u]) \<and>
                   sched_inv tbl fak arp st'))
      else loop_body defs tbl fak i idx st = Inr (st\<lparr>func_queue := func_queue st @ [?u]\<rparr>) \<and>
           sched_inv tbl fak arp (st\<lparr>func_queue := func_queue st @ [?u]\<rparr>)"
  proof (cases "runnable st d")
    case False
    have lb: "loop_body defs tbl fak i idx st = Inr (st\<lparr>func_queue := func_queue st @ [?u]\<rparr>)"
      by (rule loop_body_blocked [OF decl False])
    from loop_body_inv [OF inv idx lb] lb False show ?thesis by simp
  next
    case True
    note run = loop_body_run [OF decl True round, of defs fak]
    show ?thesis
    proof (cases "defs ?u (arguments_of fak (all_extracted_features st) (requires d))")
      case (Inl e)
      with run True show ?thesis by simp
    next
      case (Inr func_result)
      let ?st' = "st\<lparr>func_rounds := (func_rounds st)(i \<mapsto> this_round @ [?u]),
                   all_required_params_copy :=
                     [x \<leftarrow> all_required_params_copy st. x \<notin> set (provides d)],
                   all_extracted_features := all_extracted_features st ++ func_result,
                   funcnames := remove1 ?u (funcnames st)\<rparr>"
      have lb: "loop_body defs tbl fak i idx st = Inr ?st'" using run Inr by simp
      have inv': "sched_inv tbl fak arp ?st'" by (rule loop_body_inv [OF inv idx lb])
      from inv have "distinct (funcnames st)" "set (funcnames st) \<subseteq> set (map fst tbl)"
        by (simp_all add: sched_inv_def)
      with u_in have "?u \<in> executed_units tbl ?st'"
        by (auto simp: executed_units_def)
      with lb inv' have "\<exists>st'. loop_body defs tbl fak i idx st = Inr st' \<and>
                   funcnames st' = remove1 ?u (funcnames st) \<and>
                   ?u \<in> executed_units tbl st' \<and>
                   func_rounds st' i = Some (this_round @ [?u]) \<and>
                   sched_inv tbl fak arp st'"
        by simp
      with True Inr show ?thesis by simp
    qed
  qed
  have d: "distinct (map fst tbl) \<longrightarrow> sched_inv tbl fak arp (initial_sched fak arp tbl)"
    by (simp add: sched_inv_initial)
  from a b c d show ?thesis by blast
qed

text \<open>
  Claim C1 as stated fails: with the table in the order \<^verbatim>\<open>A\<close>, \<^verbatim>\<open>C\<close>, \<^verbatim>\<open>B\<close> and only
  \<^verbatim>\<open>t\<close> known, the first round runs \<^verbatim>\<open>B\<close>, whose required \<^verbatim>\<open>x\<close> is produced by \<^verbatim>\<open>A\<close>
  in that same round, and leaves \<^verbatim>\<open>C\<close> pending although \<^verbatim>\<open>t\<close> is known.
\<close>

theorem same_round_output_counts:
  "for_loop chain_defs chain_table [''t'' \<mapsto> 0] 0 0
      ((initial_sched [''t'' \<mapsto> 0] [''t'', ''x''] chain_table)\<lparr>func_rounds := [0 \<mapsto> []]\<rparr>)
     = Inr \<lparr>funcnames = [''C''], func_queue = [],
            func_rounds = [0 \<mapsto> [''A'', ''B'']],
            all_required_params_copy = [],
            all_extracted_features = [''x'' \<mapsto> 1, ''y'' \<mapsto> 2]\<rparr> \<and>
   map_of chain_table ''B'' = Some \<lparr>requires = [''x''], provides = [''y'']\<rparr> \<and>
   map_of chain_table ''C'' = Some \<lparr>requires = [''t''], provides = [''z'']\<rparr> \<and>
   ([''t'' \<mapsto> 0::int]) ''x'' = None"
  by (simp add: for_loop.simps loop_body_def initial_sched_def unknown_required_def
      chain_table_def chain_defs_def arguments_of_def)

theorem examined_unit_runs_iff_resolved_witness:
  "runnable ((initial_sched [''t'' \<mapsto> (0::int)] [''t'', ''x''] chain_table)
               \<lparr>func_rounds := [0 \<mapsto> []]\<rparr>)
      \<lparr>requires = [''t''], provides = [''x'']\<rparr> \<and>
   (\<exists>st'. loop_body chain_defs chain_table [''t'' \<mapsto> 0] 0 0
             ((initial_sched [''t'' \<mapsto> 0] [''t'', ''x''] chain_table)
                \<lparr>func_rounds := [0 \<mapsto> []]\<rparr>) = Inr st' \<and>
      funcnames st' = [''C'', ''B''] \<and>
      func_rounds st' 0 = Some [''A''] \<and>
      sched_inv chain_table [''t'' \<mapsto> 0] [''t'', ''x''] st')"
proof -
  let ?st = "(initial_sched [''t'' \<mapsto> (0::int)] [''t'', ''x''] chain_table)
               \<lparr>func_rounds := [0 \<mapsto> []]\<rparr>"
  have dist: "distinct (map fst chain_table)" by (simp add: chain_table_def)
  have inv: "sched_inv chain_table [''t'' \<mapsto> 0] [''t'', ''x''] ?st"
    by (rule sched_inv_new_round [OF sched_inv_initial [OF dist]])
  have idx: "0 < length (funcnames ?st)" by (simp add: initial_sched_def chain_table_def)
  have d: "map_of chain_table (funcnames ?st ! 0) = Some \<lparr>requires = [''t''], provides = [''x'']\<rparr>"
    by (simp add: initial_sched_def chain_table_def)
  have round: "func_rounds ?st 0 = Some []" by simp
  have run: "runnable ?st \<lparr>requires = [''t''], provides = [''x'']\<rparr>"
    by (simp add: runnable_def initial_sched_def unknown_required_def)
  have fn: "funcnames ?st = [''A'', ''C'', ''B'']" by (simp add: initial_sched_def chain_table_def)
  from examined_unit_runs_iff_resolved [OF inv idx d round, of chain_defs] run fn
  show ?thesis by (auto simp: chain_defs_def)
qed

lemma arguments_fold:
  "foldl (\<lambda>arguments req.
              case fak req of
                Some v \<Rightarrow> arguments(req \<mapsto> v)
              | None \<Rightarrow> (case extracted req of
                           Some v \<Rightarrow> arguments(req \<mapsto> v)
                         | None \<Rightarrow> arguments))
           acc reqs k =
     (if k \<in> set reqs
      then (case fak k of
              Some v \<Rightarrow> Some v
            | None \<Rightarrow> (case extracted k of Some v \<Rightarrow> Some v | None \<Rightarrow> acc k))
      else acc k)"
  by (induction reqs arbitrary: acc) (auto split: option.splits)

lemma arguments_of_lookup:
  "arguments_of fak extracted reqs req =
     (if req \<in> set reqs
      then (case fak req of Some v \<Rightarrow> Some v | None \<Rightarrow> extracted req)
      else None)"
  unfolding arguments_of_def arguments_fold by (simp split: option.splits)

lemma loop_body_dom:
  "loop_body defs tbl fak i idx st = Inr st' \<Longrightarrow>
     dom (all_extracted_features st) \<subseteq> dom (all_extracted_features st')"
  by (auto simp: loop_body_def Let_def split: option.splits if_splits sum.splits)

lemma for_loop_dom:
  "for_loop defs tbl fak i idx st = Inr st' \<Longrightarrow>
     dom (all_extracted_features st) \<subseteq> dom (all_extracted_features st')"
proof (induction defs tbl fak i idx st rule: for_loop.induct)
  case (1 defs tbl fak i idx st)
  show ?case
  proof (cases "idx < length (funcnames st)")
    case False
    with "1.prems" show ?thesis by (subst (asm) for_loop.simps) simp
  next
    case True
    from "1.prems" True obtain st1 where
      b: "loop_body defs tbl fak i idx st = Inr st1" and
      r: "for_loop defs tbl fak i (Suc idx) st1 = Inr st'"
      by (subst (asm) for_loop.simps) (auto split: sum.splits)
    from loop_body_dom [OF b] "1.IH" [OF True b r] show ?thesis by blast
  qed
qed

lemma while_loop_dom:
  "while_loop fuel defs tbl fak i st = Some (Inr st') \<Longrightarrow>
     dom (all_extracted_features st) \<subseteq> dom (all_extracted_features st')"
proof (induction fuel arbitrary: st i)
  case 0
  then show ?case by simp
next
  case (Suc fuel)
  show ?case
  proof (cases "funcnames st = []")
    case True
    with Suc.prems show ?thesis by simp
  next
    case False
    with Suc.prems obtain st1 where
      f: "for_loop defs tbl fak i 0 (st\<lparr>func_rounds := (func_rounds st)(i \<mapsto> [])\<rparr>) = Inr st1"
      and w: "while_loop fuel defs tbl fak (Suc i) st1 = Some (Inr st')"
      by (auto split: sum.splits)
    from for_loop_dom [OF f] Suc.IH [OF w] show ?thesis by auto
  qed
qed

text \<open>
  Claim C4 (amended). A unit's arguments take the caller's value of a name whenever the
  caller supplied one, whatever the units have produced; the result of an executed unit
  is merged over the extracted features, so a name it returns takes its value and every
  other name keeps the value it had; and a run never drops a name from the extracted
  features.
\<close>

theorem caller_first_then_last_writer:
  "arguments_of fak extracted reqs req =
     (if req \<in> set reqs
      then (case fak req of Some v \<Rightarrow> Some v | None \<Rightarrow> extracted req)
      else None) \<and>
   (map_of tbl (funcnames st ! idx) = Some d \<and> runnable st d \<and>
    func_rounds st i = Some this_round \<and>
    defs (funcnames st ! idx) (arguments_of fak (all_extracted_features st) (requires d))
      = Inr func_result \<longrightarrow>
      (\<exists>st'. loop_body defs tbl fak i idx st = Inr st' \<and>
         (\<forall>k. all_extracted_features st' k =
                (case func_result k of
                   Some v \<Rightarrow> Some v
                 | None \<Rightarrow> all_extracted_features st k)))) \<and>
   (while_loop fuel defs tbl fak i st = Some (Inr st1) \<longrightarrow>
      dom (all_extracted_features st) \<subseteq> dom (all_extracted_features st1))"
proof -
  have a: "arguments_of fak extracted reqs req =
     (if req \<in> set reqs
      then (case fak req of Some v \<Rightarrow> Some v | None \<Rightarrow> extracted req)
      else None)"
    by (rule arguments_of_lookup)
  have b: "map_of tbl (funcnames st ! idx) = Some d \<and> runnable st d \<and>
    func_rounds st i = Some this_round \<and>
    defs (funcnames st ! idx) (arguments_of fak (all_extracted_features st) (requires d))
      = Inr func_result \<longrightarrow>
      (\<exists>st'. loop_body defs tbl fak i idx st = Inr st' \<and>
         (\<forall>k. all_extracted_features st' k =
                (case func_result k of
                   Some v \<Rightarrow> Some v
                 | None \<Rightarrow> all_extracted_features st k)))"
  proof
    assume h: "map_of tbl (funcnames st ! idx) = Some d \<and> runnable st d \<and>
      func_rounds st i = Some this_round \<and>
      defs (funcnames st ! idx) (arguments_of fak (all_extracted_features st) (requires d))
        = Inr func_result"
    then have d: "map_of tbl (funcnames st ! idx) = Some d" and r: "runnable st d"
      and o: "func_rounds st i = Some this_round" by simp_all
    from loop_body_run [OF d r o, of defs fak] h
    show "\<exists>st'. loop_body defs tbl fak i idx st = Inr st' \<and>
         (\<forall>k. all_extracted_features st' k =
                (case func_result k of
                   Some v \<Rightarrow> Some v
                 | None \<Rightarrow> all_extracted_features st k))"
      by (simp add: map_add_def)
  qed
  have c: "while_loop fuel defs tbl fak i st = Some (Inr st1) \<longrightarrow>
      dom (all_extracted_features st) \<subseteq> dom (all_extracted_features st1)"
    using while_loop_dom by blast
  from a b c show ?thesis by blast
qed

theorem caller_first_then_last_writer_witness:
  "arguments_of [''x'' \<mapsto> (5::int)] [''x'' \<mapsto> 7] [''x''] ''x'' = Some 5 \<and>
   (\<exists>st'. loop_body same_name_defs same_name_table [''t'' \<mapsto> 0] 1 0
             \<lparr>funcnames = [''B''], func_queue = [], func_rounds = [0 \<mapsto> [''A''], 1 \<mapsto> []],
              all_required_params_copy = [],
              all_extracted_features = [''x'' \<mapsto> 1]\<rparr> = Inr st' \<and>
      all_extracted_features st' ''x'' = Some 2)"
proof -
  let ?st = "\<lparr>funcnames = [''B''], func_queue = [], func_rounds = [0 \<mapsto> [''A''], 1 \<mapsto> []],
              all_required_params_copy = [],
              all_extracted_features = [''x'' \<mapsto> (1::int)]\<rparr>"
  let ?d = "\<lparr>requires = [''t''], provides = [''x'']\<rparr>"
  have h: "map_of same_name_table (funcnames ?st ! 0) = Some ?d \<and> runnable ?st ?d \<and>
     func_rounds ?st 1 = Some [] \<and>
     same_name_defs (funcnames ?st ! 0)
        (arguments_of [''t'' \<mapsto> 0] (all_extracted_features ?st) (requires ?d))
       = Inr [''x'' \<mapsto> 2]"
    by (simp add: same_name_table_def runnable_def same_name_defs_def)
  from caller_first_then_last_writer
         [where fak = "[''x'' \<mapsto> (5::int)]" and extracted = "[''x'' \<mapsto> 7]"
            and reqs = "[''x'']" and req = "''x''"]
  have a: "arguments_of [''x'' \<mapsto> (5::int)] [''x'' \<mapsto> 7] [''x''] ''x'' = Some 5"
    by simp
  from caller_first_then_last_writer
         [where fak = "[''t'' \<mapsto> (0::int)]" and tbl = same_name_table and st = ?st
            and idx = 0 and d = ?d and defs = same_name_defs
            and func_result = "[''x'' \<mapsto> 2]" and i = 1 and this_round = "[]"] h
  obtain st' where "loop_body same_name_defs same_name_table [''t'' \<mapsto> 0] 1 0 ?st = Inr st'"
    and "\<forall>k. all_extracted_features st' k =
             (case [''x'' \<mapsto> (2::int)] k of Some v \<Rightarrow> Some v
              | None \<Rightarrow> all_extracted_features ?st k)"
    by blast
  then have "\<exists>st'. loop_body same_name_defs same_name_table [''t'' \<mapsto> 0] 1 0 ?st = Inr st' \<and>
      all_extracted_features st' ''x'' = Some 2"
    by simp
  with a show ?thesis by blast
qed

text \<open>
  Claim C4 as stated fails: two units both provide \<^verbatim>\<open>x\<close>; after the first round the
  value of \<^verbatim>\<open>x\<close> is the one \<^verbatim>\<open>A\<close> wrote, and the run returns the one \<^verbatim>\<open>B\<close> wrote later.
\<close>

theorem later_unit_overwrites_value:
  "for_loop same_name_defs same_name_table [''t'' \<mapsto> 0] 0 0
      ((initial_sched [''t'' \<mapsto> 0] [''t''] same_name_table)\<lparr>func_rounds := [0 \<mapsto> []]\<rparr>)
     = Inr \<lparr>funcnames = [''B''], func_queue = [],
            func_rounds = [0 \<mapsto> [''A'']],
            all_required_params_copy = [],
            all_extracted_features = [''x'' \<mapsto> 1]\<rparr> \<and>
   call_custom_functions 3 same_name_defs [''t'' \<mapsto> 0] [''t''] [''x''] same_name_table
     = Some (Inr [''x'' \<mapsto> 2])"
  by (simp add: for_loop.simps loop_body_def initial_sched_def unknown_required_def
      same_name_table_def same_name_defs_def arguments_of_def call_custom_functions_def
      check_required_def numeral_3_eq_3)

section \<open>Properties of the extractor\<close>

subsection \<open>Skipped lines and malformed pairs\<close>






lemma extract_loop_skip:
  "annotated_pair (all_lines (fst s)) i = Inr False \<Longrightarrow>
     extract_loop parse eval list_set (i # rest) s = extract_loop parse eval list_set rest s"
  by (simp add: extract_step_def)

lemma extract_loop_skip_prefix:
  "\<forall>j\<in>set pre. annotated_pair (all_lines (fst s)) j = Inr False \<Longrightarrow>
     extract_loop parse eval list_set (pre @ rest) s = extract_loop parse eval list_set rest s"
  by (induction pre) (simp_all add: extract_step_def)

lemma record_pair_malformed:
  assumes "malformed_pair parse eval (all_lines (fst s)) i"
  shows "isl (fst (record_pair parse eval list_set i s))"
proof (cases "parse decorator_format (strip (all_lines (fst s) ! i))")
  case None
  then show ?thesis
    by (simp add: record_pair_def Let_def eval_named_def named_field_def)
next
  case (Some named)
  show ?thesis
  proof (cases "named ''requires''")
    case None
    with Some show ?thesis
      by (simp add: record_pair_def Let_def eval_named_def named_field_def)
  next
    case (Some requires_text)
    note rt = this
    let ?fr1 = "(fst s)\<lparr>reqs_provs_1 := Some named,
                  func_name := parse header_format (strip (all_lines (fst s) ! Suc i))\<rparr>"
    obtain r fr2 where ev: "eval requires_text ?fr1 = (r, fr2)"
      by (cases "eval requires_text ?fr1")
    show ?thesis
    proof (cases r)
      case (Inl e)
      with ev rt \<open>parse decorator_format (strip (all_lines (fst s) ! i)) = Some named\<close>
      show ?thesis
        by (simp add: record_pair_def Let_def eval_named_def named_field_def)
    next
      case (Inr reqs)
      with ev have notall: "\<not> (\<forall>fr. isl (fst (eval requires_text fr)))"
        by (metis fst_conv sum.disc(2))
      from assms rt \<open>parse decorator_format (strip (all_lines (fst s) ! i)) = Some named\<close> notall
      consider
        (header) "parse header_format (strip (all_lines (fst s) ! Suc i)) = None" |
        (prov) "\<forall>fr. reqs_provs_1 (snd (eval requires_text fr)) = reqs_provs_1 fr"
               "case named ''provides'' of None \<Rightarrow> True
                | Some provides_text \<Rightarrow> (\<forall>fr. isl (fst (eval provides_text fr)))"
        by (auto simp: malformed_pair_def)
      then show ?thesis
      proof cases
        case header
        with ev Inr rt \<open>parse decorator_format (strip (all_lines (fst s) ! i)) = Some named\<close>
        show ?thesis
          by (auto simp: record_pair_def Let_def eval_named_def named_field_def
              split: sum.splits prod.splits option.splits)
      next
        case prov
        from prov(1) have "reqs_provs_1 (snd (eval requires_text ?fr1)) = reqs_provs_1 ?fr1"
          by blast
        with ev have keep: "reqs_provs_1 fr2 = Some named" by simp
        show ?thesis
        proof (cases "named ''provides''")
          case None
          with ev Inr rt keep \<open>parse decorator_format (strip (all_lines (fst s) ! i)) = Some named\<close>
          show ?thesis
            by (simp add: record_pair_def Let_def eval_named_def named_field_def)
        next
          case (Some provides_text)
          with prov(2) have "isl (fst (eval provides_text fr2))" by simp
          then obtain e fr3 where "eval provides_text fr2 = (Inl e, fr3)"
            by (cases "eval provides_text fr2") (auto simp: isl_def)
          with ev Inr rt keep Some
            \<open>parse decorator_format (strip (all_lines (fst s) ! i)) = Some named\<close>
          show ?thesis
            by (simp add: record_pair_def Let_def eval_named_def named_field_def)
        qed
      qed
    qed
  qed
qed

lemma upt_split_at:
  "k < n \<Longrightarrow> [0 ..< n] = [0 ..< k] @ k # [Suc k ..< n]"
  by (metis le_add1 less_imp_add_positive less_or_eq_imp_le upt_add_eq_append upt_conv_Cons
      zero_le add_0)

text \<open>
  Claim C6 (amended). A line containing \<^verbatim>\<open>@myFeature\<close> whose next line does not
  contain \<^verbatim>\<open>def \<close> is passed over without an error, in every script and wherever
  it stands: the iteration for it changes nothing. So is a line that does not contain
  \<^verbatim>\<open>@myFeature\<close>, whatever follows it: a function that is not preceded by the
  annotation gives no unit declaration. When a line containing \<^verbatim>\<open>@myFeature\<close> is
  followed by a line containing \<^verbatim>\<open>def \<close> and the pair is malformed, the loop raises
  at that pair. For a whole script: without such a pair extraction returns the empty
  table and evaluates nothing, and when the first such pair is malformed extraction
  raises.
\<close>

theorem annotation_errors_and_skips:
  "(i < length (all_lines (fst s)) \<and> str_in ''@myFeature'' (all_lines (fst s) ! i) \<and>
    Suc i < length (all_lines (fst s)) \<and> \<not> str_in ''def '' (all_lines (fst s) ! Suc i) \<longrightarrow>
      extract_loop parse eval list_set (i # rest) s = extract_loop parse eval list_set rest s) \<and>
   (i < length (all_lines (fst s)) \<and> \<not> str_in ''@myFeature'' (all_lines (fst s) ! i) \<longrightarrow>
      extract_loop parse eval list_set (i # rest) s = extract_loop parse eval list_set rest s) \<and>
   (annotated_pair (all_lines (fst s)) i = Inr True \<and>
    malformed_pair parse eval (all_lines (fst s)) i \<longrightarrow>
      isl (fst (extract_loop parse eval list_set (i # rest) s))) \<and>
   ((\<forall>j. Suc j < length (readlines script) \<longrightarrow>
          annotated_pair (readlines script) j = Inr False) \<longrightarrow>
      parse_for_req_prov_params parse eval list_set script w =
        (Inr ([], [], []), (initial_frame script w, []))) \<and>
   (Suc k < length (readlines script) \<and>
    (\<forall>j<k. annotated_pair (readlines script) j = Inr False) \<and>
    annotated_pair (readlines script) k = Inr True \<and>
    malformed_pair parse eval (readlines script) k \<longrightarrow>
      isl (fst (parse_for_req_prov_params parse eval list_set script w)))"
proof -
  let ?ls = "readlines script"
  let ?s0 = "(initial_frame script w, [])"
  have lines0: "all_lines (fst ?s0) = ?ls" by (simp add: initial_frame_def)
  have a: "i < length (all_lines (fst s)) \<and> str_in ''@myFeature'' (all_lines (fst s) ! i) \<and>
    Suc i < length (all_lines (fst s)) \<and> \<not> str_in ''def '' (all_lines (fst s) ! Suc i) \<longrightarrow>
      extract_loop parse eval list_set (i # rest) s = extract_loop parse eval list_set rest s"
    by (simp add: extract_step_def annotated_pair_def)
  have b: "i < length (all_lines (fst s)) \<and> \<not> str_in ''@myFeature'' (all_lines (fst s) ! i) \<longrightarrow>
      extract_loop parse eval list_set (i # rest) s = extract_loop parse eval list_set rest s"
    by (simp add: extract_step_def annotated_pair_def)
  have c: "annotated_pair (all_lines (fst s)) i = Inr True \<and>
    malformed_pair parse eval (all_lines (fst s)) i \<longrightarrow>
      isl (fst (extract_loop parse eval list_set (i # rest) s))" for i rest and s :: "'a frame \<times> string list"
  proof
    assume h: "annotated_pair (all_lines (fst s)) i = Inr True \<and>
      malformed_pair parse eval (all_lines (fst s)) i"
    then have "isl (fst (record_pair parse eval list_set i s))"
      by (simp add: record_pair_malformed)
    with h show "isl (fst (extract_loop parse eval list_set (i # rest) s))"
      by (auto simp: extract_step_def isl_def split: prod.splits)
  qed
  have d: "(\<forall>j. Suc j < length ?ls \<longrightarrow> annotated_pair ?ls j = Inr False) \<longrightarrow>
      parse_for_req_prov_params parse eval list_set script w = (Inr ([], [], []), ?s0)"
  proof
    assume "\<forall>j. Suc j < length ?ls \<longrightarrow> annotated_pair ?ls j = Inr False"
    then have "\<forall>j\<in>set [0 ..< length ?ls - 1]. annotated_pair (all_lines (fst ?s0)) j = Inr False"
      unfolding lines0 by auto
    from extract_loop_skip_prefix [OF this, of parse eval list_set "[]"]
    show "parse_for_req_prov_params parse eval list_set script w = (Inr ([], [], []), ?s0)"
      by (simp add: parse_for_req_prov_params_def initial_frame_def)
  qed
  have e: "Suc k < length ?ls \<and> (\<forall>j<k. annotated_pair ?ls j = Inr False) \<and>
    annotated_pair ?ls k = Inr True \<and> malformed_pair parse eval ?ls k \<longrightarrow>
      isl (fst (parse_for_req_prov_params parse eval list_set script w))"
  proof
    assume h: "Suc k < length ?ls \<and> (\<forall>j<k. annotated_pair ?ls j = Inr False) \<and>
      annotated_pair ?ls k = Inr True \<and> malformed_pair parse eval ?ls k"
    then have "Suc k < length ?ls" by blast
    then have "k < length ?ls - 1" by arith
    from upt_split_at [OF this]
    have split: "[0 ..< length ?ls - 1] = [0 ..< k] @ k # [Suc k ..< length ?ls - 1]" .
    from h have "\<forall>j\<in>set [0 ..< k]. annotated_pair (all_lines (fst ?s0)) j = Inr False"
      unfolding lines0 by simp
    from extract_loop_skip_prefix [OF this]
    have "extract_loop parse eval list_set [0 ..< length ?ls - 1] ?s0 =
          extract_loop parse eval list_set (k # [Suc k ..< length ?ls - 1]) ?s0"
      unfolding split .
    moreover from h c [of ?s0 k "[Suc k ..< length ?ls - 1]"]
    have "isl (fst (extract_loop parse eval list_set (k # [Suc k ..< length ?ls - 1]) ?s0))"
      unfolding lines0 by blast
    ultimately show "isl (fst (parse_for_req_prov_params parse eval list_set script w))"
      by (auto simp: parse_for_req_prov_params_def isl_def split: prod.splits sum.splits)
  qed
  from a b c [of s i rest] d e show ?thesis by blast
qed

lemma readlines_mixed:
  "readlines mixed_script =
     [decorator_line (''['' @ quote ''t'' @ '']'') (''['' @ quote ''x'' @ '']''),
      ''x = 1'' @ [CHR 0x0A],
      decorator_line (''['' @ quote ''t'' @ '']'') (''['' @ quote ''z'' @ '']''),
      ''def g(t):'' @ [CHR 0x0A]]"
  by (simp add: readlines_def mixed_script_def decorator_line_def quote_def)

lemma readlines_malformed:
  "readlines malformed_script =
     [''@myFeature(provides=['' @ quote ''x'' @ ''])'' @ [CHR 0x0A], ''def f(t):'' @ [CHR 0x0A]]"
  by (simp add: readlines_def malformed_script_def quote_def)

lemmas extract_eval_simps =
  extract_step_def annotated_pair_def record_pair_def eval_named_def named_field_def
  decorator_line_def quote_def parse_formats_def decorator_format_def header_format_def
  decorator_items_def header_items_def strip_def is_space_def initial_frame_def

text \<open>
  Claim C6 as stated fails: the well-formed annotation line that opens
  \<^const>\<open>mixed_script\<close> is followed by an assignment; it is skipped, and extraction
  returns the table of the function \<^verbatim>\<open>g\<close> declared further down, without any error.
\<close>

theorem annotation_without_header_is_skipped:
  "fst (parse_for_req_prov_params parse_formats eval_names remdups mixed_script ())
     = Inr ([(''g'', \<lparr>requires = [''t''], provides = [''z'']\<rparr>)], [''t''], [''z'']) \<and>
   str_in ''@myFeature'' (readlines mixed_script ! 0) \<and>
   \<not> str_in ''def '' (readlines mixed_script ! 1)"
  by (simp add: parse_for_req_prov_params_def readlines_mixed eval_nat_numeral
      extract_eval_simps eval_names_def)

theorem annotation_errors_and_skips_witness:
  "extract_loop parse_formats eval_names remdups [0, 1, 2] (initial_frame mixed_script (), [])
     = extract_loop parse_formats eval_names remdups [1, 2] (initial_frame mixed_script (), []) \<and>
   extract_loop parse_formats eval_names remdups [1, 2] (initial_frame mixed_script (), [])
     = extract_loop parse_formats eval_names remdups [2] (initial_frame mixed_script (), []) \<and>
   isl (fst (extract_loop parse_formats eval_names remdups [0]
               (initial_frame malformed_script (), []))) \<and>
   parse_for_req_prov_params parse_formats eval_names remdups (''x = 1'' @ [CHR 0x0A]) ()
     = (Inr ([], [], []), (initial_frame (''x = 1'' @ [CHR 0x0A]) (), [])) \<and>
   isl (fst (parse_for_req_prov_params parse_formats eval_names remdups malformed_script ()))"
proof -
  let ?s = "(initial_frame mixed_script (), []) :: unit frame \<times> string list"
  let ?m = "(initial_frame malformed_script (), []) :: unit frame \<times> string list"
  have h1: "0 < length (all_lines (fst ?s)) \<and> str_in ''@myFeature'' (all_lines (fst ?s) ! 0) \<and>
    Suc 0 < length (all_lines (fst ?s)) \<and> \<not> str_in ''def '' (all_lines (fst ?s) ! Suc 0)"
    by (simp add: initial_frame_def readlines_mixed decorator_line_def quote_def)
  have h2: "1 < length (all_lines (fst ?s)) \<and> \<not> str_in ''@myFeature'' (all_lines (fst ?s) ! 1)"
    by (simp add: initial_frame_def readlines_mixed)
  have h3: "annotated_pair (all_lines (fst ?m)) 0 = Inr True \<and>
    malformed_pair parse_formats (eval_names :: unit evaluator) (all_lines (fst ?m)) 0"
    by (simp add: initial_frame_def readlines_malformed annotated_pair_def malformed_pair_def
        parse_formats_def decorator_format_def header_format_def decorator_items_def strip_def
        is_space_def quote_def)
  have h4: "\<forall>j. Suc j < length (readlines (''x = 1'' @ [CHR 0x0A])) \<longrightarrow>
              annotated_pair (readlines (''x = 1'' @ [CHR 0x0A])) j = Inr False"
    by (simp add: readlines_def)
  have h5: "Suc 0 < length (readlines malformed_script) \<and>
    (\<forall>j<0. annotated_pair (readlines malformed_script) j = Inr False) \<and>
    annotated_pair (readlines malformed_script) 0 = Inr True \<and>
    malformed_pair parse_formats (eval_names :: unit evaluator) (readlines malformed_script) 0"
    by (simp add: readlines_malformed annotated_pair_def malformed_pair_def parse_formats_def
        decorator_format_def header_format_def decorator_items_def strip_def is_space_def
        quote_def)
  note inst1 = annotation_errors_and_skips
      [where s = ?s and i = 0 and rest = "[1, 2]" and parse = parse_formats
         and eval = "eval_names :: unit evaluator" and list_set = remdups
         and script = "''x = 1'' @ [CHR 0x0A]" and w = "()" and k = 0]
  note inst2 = annotation_errors_and_skips
      [where s = ?s and i = 1 and rest = "[2]" and parse = parse_formats
         and eval = "eval_names :: unit evaluator" and list_set = remdups
         and script = malformed_script and w = "()" and k = 0]
  note inst3 = annotation_errors_and_skips
      [where s = ?m and i = 0 and rest = "[]" and parse = parse_formats
         and eval = "eval_names :: unit evaluator" and list_set = remdups
         and script = malformed_script and w = "()" and k = 0]
  have a: "extract_loop parse_formats eval_names remdups [0, 1, 2] ?s
     = extract_loop parse_formats eval_names remdups [1, 2] ?s"
    by (rule mp [OF inst1 [THEN conjunct1] h1])
  have b: "extract_loop parse_formats eval_names remdups [1, 2] ?s
     = extract_loop parse_formats eval_names remdups [2] ?s"
    by (rule mp [OF inst2 [THEN conjunct2, THEN conjunct1] h2])
  have c: "isl (fst (extract_loop parse_formats eval_names remdups [0] ?m))"
    by (rule mp [OF inst3 [THEN conjunct2, THEN conjunct2, THEN conjunct1] h3])
  have d:
    "parse_for_req_prov_params parse_formats eval_names remdups (''x = 1'' @ [CHR 0x0A]) ()
       = (Inr ([], [], []), (initial_frame (''x = 1'' @ [CHR 0x0A]) (), []))"
    by (rule mp [OF inst1 [THEN conjunct2, THEN conjunct2, THEN conjunct2, THEN conjunct1] h4])
  have e:
    "isl (fst (parse_for_req_prov_params parse_formats eval_names remdups malformed_script ()))"
    by (rule mp [OF inst2 [THEN conjunct2, THEN conjunct2, THEN conjunct2, THEN conjunct2] h5])
  show ?thesis by (intro conjI a b c d e)
qed

subsection \<open>What an evaluator that respects the frame leaves behind\<close>



lemma eval_named_text:
  assumes "eval_named eval key s = (r, s')" and "reqs_provs_1 (fst s) = Some named"
  shows "(named key = None \<and> snd s' = snd s \<and> isl r) \<or>
         (\<exists>text. named key = Some text \<and> snd s' = snd s @ [text] \<and>
                 r = fst (eval text (fst s)))"
  using assms
  by (auto simp: eval_named_def named_field_def split: option.splits sum.splits prod.splits)













subsection \<open>The texts evaluated\<close>














subsection \<open>Repeated function names\<close>










section \<open>Properties of the isolated run\<close>

lemma remove_quietly_dirs: "dirs (remove_quietly path fs) = dirs fs"
  by (simp add: remove_quietly_def)

lemma remove_tmp_files_dirs:
  "dirs (remove_tmp_files rmtree folder path fs) = dirs (rmtree path fs)"
  by (simp add: remove_tmp_files_def remove_quietly_dirs)

text \<open>
  Claim C8 (amended). When both staging calls succeed, the run returns exactly the
  outcome of the container step, its exception unchanged when it raised, and the file
  system it leaves is the one \<^verbatim>\<open>remove_tmp_files\<close> makes of the staging directory,
  whether the container step returned or raised; so the staging directory is gone
  whenever \<^verbatim>\<open>rmtree\<close> does remove it.
\<close>

theorem staging_directory_removed_after_container_step:
  assumes "make_tmp_dir project_path_link project_path uuid10 fs = Inr (path_to_tmp_dir, fs1)"
    and "copy_data_to_tmp_dir path_to_tmp_dir script_fpath fs1 = Inr fs2"
  shows "docker_extract_features project_path_link project_path folder uuid10 rmtree
            container_run remove_container script_fpath fs
          = (fst (extract_feats_in_docker_container container_run remove_container
                    path_to_tmp_dir fs2),
             remove_tmp_files rmtree folder path_to_tmp_dir
               (snd (extract_feats_in_docker_container container_run remove_container
                       path_to_tmp_dir fs2))) \<and>
         ((\<forall>fs'. path_to_tmp_dir \<notin> dirs (rmtree path_to_tmp_dir fs')) \<longrightarrow>
            path_to_tmp_dir \<notin> dirs (snd (docker_extract_features project_path_link project_path
               folder uuid10 rmtree container_run remove_container script_fpath fs)))"
proof -
  have run: "docker_extract_features project_path_link project_path folder uuid10 rmtree
            container_run remove_container script_fpath fs
          = (fst (extract_feats_in_docker_container container_run remove_container
                    path_to_tmp_dir fs2),
             remove_tmp_files rmtree folder path_to_tmp_dir
               (snd (extract_feats_in_docker_container container_run remove_container
                       path_to_tmp_dir fs2)))"
    using assms by (simp add: docker_extract_features_def split: prod.splits)
  show ?thesis
    unfolding run by (simp add: remove_tmp_files_dirs)
qed

lemma staged_dir:
  "make_tmp_dir ''/link'' ''/proj'' ''0a1b2c3d4e'' project_with_script
     = Inr (''/proj/tmp/0a1b2c3d4e'',
            \<lparr>files = {''/proj/feats.py''},
             dirs = {''/proj/tmp/0a1b2c3d4e'', ''/proj/tmp'', ''/proj''}\<rparr>)"
  by (simp add: make_tmp_dir_def makedirs_def path_exists_def path_join_def
      project_with_script_def Let_def)

theorem staging_directory_removed_after_container_step_witness:
  "fst (docker_extract_features ''/link'' ''/proj'' ''/feats'' ''0a1b2c3d4e'' rmtree_all
          crashing_run None ''/proj/feats.py'' project_with_script)
     = Inl (RaisedByCallee ''container crashed'') \<and>
   ''/proj/tmp/0a1b2c3d4e'' \<notin> dirs (snd (docker_extract_features ''/link'' ''/proj'' ''/feats''
          ''0a1b2c3d4e'' rmtree_all crashing_run None ''/proj/feats.py'' project_with_script))"
proof -
  let ?fs1 = "\<lparr>files = {''/proj/feats.py''},
               dirs = {''/proj/tmp/0a1b2c3d4e'', ''/proj/tmp'', ''/proj''}\<rparr>"
  let ?fs2 = "write_file (path_join ''/proj/tmp/0a1b2c3d4e'' ''__init__.py'')
                (write_file (path_join ''/proj/tmp/0a1b2c3d4e'' ''features_already_known.pkl'')
                   (?fs1\<lparr>files := insert (path_join ''/proj/tmp/0a1b2c3d4e''
                                               ''custom_feature_defs.py'') (files ?fs1)\<rparr>))"
  have copy: "copy_data_to_tmp_dir ''/proj/tmp/0a1b2c3d4e'' ''/proj/feats.py'' ?fs1 = Inr ?fs2"
    by (simp add: copy_data_to_tmp_dir_def copy_file_def)
  have gone: "\<forall>fs'. ''/proj/tmp/0a1b2c3d4e'' \<notin> dirs (rmtree_all ''/proj/tmp/0a1b2c3d4e'' fs')"
    by (simp add: rmtree_all_def)
  note inst = staging_directory_removed_after_container_step
      [OF staged_dir copy, of "''/feats''" rmtree_all crashing_run None]
  have a: "fst (docker_extract_features ''/link'' ''/proj'' ''/feats'' ''0a1b2c3d4e'' rmtree_all
          crashing_run None ''/proj/feats.py'' project_with_script)
     = Inl (RaisedByCallee ''container crashed'')"
    unfolding conjunct1 [OF inst]
    by (simp add: extract_feats_in_docker_container_def crashing_run_def)
  have b: "''/proj/tmp/0a1b2c3d4e'' \<notin> dirs (snd (docker_extract_features ''/link'' ''/proj''
          ''/feats'' ''0a1b2c3d4e'' rmtree_all crashing_run None ''/proj/feats.py''
          project_with_script))"
    by (rule mp [OF conjunct2 [OF inst] gone])
  from a b show ?thesis by (rule conjI)
qed

text \<open>
  Claim C8 as stated fails: when the script to copy does not exist, the run ends with
  \<^verbatim>\<open>IOError\<close> and the staging directory made just before is still there.
\<close>

theorem staging_directory_left_when_copy_fails:
  "docker_extract_features ''/link'' ''/proj'' ''/feats'' ''0a1b2c3d4e'' rmtree_all
      crashing_run None ''/proj/feats.py'' project_only
     = (Inl (IOError ''/proj/feats.py''),
        \<lparr>files = {}, dirs = {''/proj/tmp/0a1b2c3d4e'', ''/proj/tmp'', ''/proj''}\<rparr>)"
  by (simp add: docker_extract_features_def make_tmp_dir_def makedirs_def path_exists_def
      path_join_def project_only_def copy_data_to_tmp_dir_def copy_file_def Let_def)

text \<open>
  Inside the container step, an exception of \<^verbatim>\<open>client.remove_container\<close> in the
  \<^verbatim>\<open>finally\<close> block takes the place of the exception of the \<^verbatim>\<open>try\<close> block.
\<close>

lemma container_removal_failure_replaces_error:
  "container_run path fs = (Inl (e, True), fs') \<Longrightarrow>
     extract_feats_in_docker_container container_run (Some e2) path fs = (Inl e2, fs')"
  by (simp add: extract_feats_in_docker_container_def)

section \<open>The writes of \<^verbatim>\<open>generate_custom_features\<close>\<close>

lemma add_ts_data_lookup:
  "add_ts_data np_array len t m e known k =
     (if k = ''t'' then Some (np_array (case known ''t'' of None \<Rightarrow> t | Some v \<Rightarrow> v))
      else if k = ''m'' then Some (np_array (case known ''m'' of None \<Rightarrow> m | Some v \<Rightarrow> v))
      else if k = ''e''
      then (case known ''e'' of
              Some v \<Rightarrow> Some (np_array v)
            | None \<Rightarrow> (case e of
                         None \<Rightarrow> None
                       | Some ev \<Rightarrow> if len ev = len m then Some (np_array ev) else None))
      else known k)"
  by (cases "known ''t''"; cases "known ''m''"; cases "known ''e''"; cases e;
      simp add: add_ts_data_def Let_def)

text \<open>
  Claim C10. After a call with an explicit dictionary, the caller's dictionary holds
  under \<^verbatim>\<open>t\<close> and \<^verbatim>\<open>m\<close> the array made from the value it had, or from the argument
  when it had none; under \<^verbatim>\<open>e\<close> the array made from the value it had, or from the
  argument \<^verbatim>\<open>e\<close> when it had none and \<^verbatim>\<open>e\<close> is not \<^verbatim>\<open>None\<close> and is as long as
  \<^verbatim>\<open>m\<close>; every other key is as it was, and the default dictionary is untouched. A call
  that leaves the argument out writes the same way to the one default dictionary, so a
  second such call finds the first call's \<^verbatim>\<open>t\<close> there and converts it again.
\<close>

theorem known_values_mutated_in_place:
  "snd (generate_custom_features np_array len in_docker no_docker images execute docker t m e known)
     = (\<lambda>k. if k = ''t'' then Some (np_array (case known ''t'' of None \<Rightarrow> t | Some v \<Rightarrow> v))
            else if k = ''m'' then Some (np_array (case known ''m'' of None \<Rightarrow> m | Some v \<Rightarrow> v))
            else if k = ''e''
            then (case known ''e'' of
                    Some v \<Rightarrow> Some (np_array v)
                  | None \<Rightarrow> (case e of
                               None \<Rightarrow> None
                             | Some ev \<Rightarrow> if len ev = len m then Some (np_array ev) else None))
            else known k) \<and>
   snd (call_generate_custom_features np_array len in_docker no_docker images execute docker
          t m e (Some known) default_dict)
     = (Some (snd (generate_custom_features np_array len in_docker no_docker images execute docker
                     t m e known)),
        default_dict) \<and>
   snd (call_generate_custom_features np_array len in_docker no_docker images execute docker
          t m e None default_dict)
     = (None,
        snd (generate_custom_features np_array len in_docker no_docker images execute docker
               t m e default_dict)) \<and>
   snd (snd (call_generate_custom_features np_array len in_docker no_docker images execute docker
          t2 m2 e2 None
          (snd (snd (call_generate_custom_features np_array len in_docker no_docker images
                       execute docker t m e None Map.empty))))) ''t''
     = Some (np_array (np_array t))"
proof -
  have a: "snd (generate_custom_features np_array len in_docker no_docker images execute docker
                  t m e known) = add_ts_data np_array len t m e known" for t m e known
    by (simp add: generate_custom_features_def Let_def)
  have b: "snd (call_generate_custom_features np_array len in_docker no_docker images execute
                  docker t m e (Some known) default_dict)
           = (Some (add_ts_data np_array len t m e known), default_dict)"
    by (simp add: call_generate_custom_features_def generate_custom_features_def Let_def)
  have c: "snd (call_generate_custom_features np_array len in_docker no_docker images execute
                  docker t m e None default_dict)
           = (None, add_ts_data np_array len t m e default_dict)" for t m e default_dict
    by (simp add: call_generate_custom_features_def generate_custom_features_def Let_def)
  show ?thesis
    unfolding a b c by (simp add: add_ts_data_lookup fun_eq_iff)
qed


end
